theory Spec2Isabelle
  imports Main "HOL-Library.Word"
begin

unbundle bit_operations_syntax

section \<open>Page identifiers\<close>

text \<open>
  A page id is a \<open>uint64_t\<close>; \<open>size_t\<close> is taken to be 64 bits wide (LP64), a segment id
  is a \<open>uint16_t\<close>. The two static helpers of \<open>BufferManager\<close> (buffer_manager.h):
  \<^verbatim>\<open>static constexpr uint16_t get_segment_id(uint64_t page_id) { return page_id >> 48; }\<close>
  \<^verbatim>\<open>static constexpr uint64_t get_segment_page_id(uint64_t page_id) { return page_id & ((1ull << 48) - 1); }\<close>
  The return type of the first narrows the shifted value to 16 bits.
\<close>

type_synonym u64 = "64 word"
type_synonym u16 = "16 word"
type_synonym byte = "8 word"

definition get_segment_id :: "u64 \<Rightarrow> u16" where
  "get_segment_id page_id = ucast (drop_bit 48 page_id)"

definition get_segment_page_id :: "u64 \<Rightarrow> u64" where
  "get_segment_page_id page_id = page_id AND (push_bit 48 1 - 1)"

section \<open>Frames\<close>

text \<open>
  \<open>enum FrameState { empty, clean, dirty }\<close>. The \<open>data\<close> pointer of a frame is null
  until \<open>readPage\<close> allocates it; \<open>malloc\<close> returns memory whose content is not
  initialised, and \<open>read_block\<close> then fills it.
\<close>

datatype FrameState = empty | clean | dirty

datatype buffer = Nullptr | Uninitialised | Contents "byte list"

text \<open>
  \<open>pthread_rwlock_t\<close>: free, held by a number of readers, or held by one writer.
  \<open>ReadLocked n\<close> stands for \<open>n + 1\<close> readers. A try-lock returns \<open>None\<close> where the
  POSIX call returns \<open>EBUSY\<close>. Readers are admitted whenever no writer holds the lock.
  \<open>unlock\<close> is \<open>BufferFrame::unlock\<close>, that is \<open>pthread_rwlock_unlock\<close>; unlocking a
  lock that nobody holds is undefined in POSIX, and \<open>unlock\<close> is \<open>None\<close> there.
\<close>

datatype rwlock = Unlocked | ReadLocked nat | WriteLocked

fun trywrlock :: "rwlock \<Rightarrow> rwlock option" where
  "trywrlock Unlocked = Some WriteLocked"
| "trywrlock (ReadLocked n) = None"
| "trywrlock WriteLocked = None"

fun tryrdlock :: "rwlock \<Rightarrow> rwlock option" where
  "tryrdlock Unlocked = Some (ReadLocked 0)"
| "tryrdlock (ReadLocked n) = Some (ReadLocked (Suc n))"
| "tryrdlock WriteLocked = None"

fun unlock :: "rwlock \<Rightarrow> rwlock option" where
  "unlock Unlocked = None"
| "unlock (ReadLocked 0) = Some Unlocked"
| "unlock (ReadLocked (Suc n)) = Some (ReadLocked n)"
| "unlock WriteLocked = Some Unlocked"

record BufferFrame =
  page_id :: u64
  page_size :: u64
  segment_id :: u16
  pageOffsetInFile :: u64
  state :: FrameState
  data :: buffer
  frameLock :: rwlock

text \<open>
  The constructor \<open>BufferFrame::BufferFrame(page_id, page_size, segment_id)\<close>: the lock is
  initialised, \<open>data = nullptr\<close>,
  \<open>pageOffsetInFile = (page_id & ((1ull << 48) - 1)) * page_size\<close> (a product of two
  64-bit unsigned values, so it wraps modulo \<open>2^64\<close>), \<open>state = empty\<close>.
\<close>

definition new_BufferFrame :: "u64 \<Rightarrow> u64 \<Rightarrow> u16 \<Rightarrow> BufferFrame" where
  "new_BufferFrame pid psize seg =
     \<lparr> page_id = pid, page_size = psize, segment_id = seg,
       pageOffsetInFile = (pid AND (push_bit 48 1 - 1)) * psize,
       state = empty, data = Nullptr, frameLock = Unlocked \<rparr>"

text \<open>
  \<open>lockWrite(b)\<close> and \<open>lockRead(b)\<close>: with \<open>b = false\<close> the try-lock variant, whose
  result says whether the lock was taken; with \<open>b = true\<close> the blocking variant. A blocking
  call on a lock that cannot be taken in the current state does not return: the model's value
  is \<open>None\<close> then.
\<close>

definition lockWrite :: "bool \<Rightarrow> rwlock \<Rightarrow> (bool \<times> rwlock) option" where
  "lockWrite blocking l =
     (if \<not> blocking then
        (case trywrlock l of Some l' \<Rightarrow> Some (True, l') | None \<Rightarrow> Some (False, l))
      else
        (case trywrlock l of Some l' \<Rightarrow> Some (True, l') | None \<Rightarrow> None))"

definition lockRead :: "bool \<Rightarrow> rwlock \<Rightarrow> (bool \<times> rwlock) option" where
  "lockRead blocking l =
     (if \<not> blocking then
        (case tryrdlock l of Some l' \<Rightarrow> Some (True, l') | None \<Rightarrow> Some (False, l))
      else
        (case tryrdlock l of Some l' \<Rightarrow> Some (True, l') | None \<Rightarrow> None))"

definition setDirty :: "BufferFrame \<Rightarrow> BufferFrame" where
  "setDirty f = f\<lparr>state := dirty\<rparr>"

section \<open>The block file facility\<close>

text \<open>
  \<open>moderndbs/file.h\<close> is not among the sources, so the file operations a frame calls are
  parameters of the model, over any type \<open>'d\<close> of disk states:
  \<^item> \<open>open_file name mode\<close> is \<open>File::open_file\<close>; \<open>None\<close> when it throws;
  \<^item> \<open>ofstream_create name\<close> is the effect of \<open>std::ofstream file(file_name)\<close>, which
    creates the file and never throws;
  \<^item> \<open>read_block name offset size\<close> is \<open>read_block\<close> on the opened file: the bytes
    it stores into the destination, \<open>None\<close> when it throws;
  \<^item> \<open>write_block name data offset size\<close> is \<open>write_block\<close> on the opened file: the
    disk after the write, \<open>None\<close> when it throws.
\<close>

datatype Mode = READ | WRITE

record 'd file_ops =
  open_file :: "string \<Rightarrow> Mode \<Rightarrow> 'd \<Rightarrow> 'd option"
  ofstream_create :: "string \<Rightarrow> 'd \<Rightarrow> 'd"
  read_block :: "string \<Rightarrow> u64 \<Rightarrow> u64 \<Rightarrow> 'd \<Rightarrow> byte list option"
  write_block :: "string \<Rightarrow> buffer \<Rightarrow> u64 \<Rightarrow> u64 \<Rightarrow> 'd \<Rightarrow> 'd option"

datatype exn = buffer_full_error | io_failure

text \<open>\<open>std::to_string\<close> of an unsigned value: its decimal digits.\<close>

definition digit_char :: "nat \<Rightarrow> char" where
  "digit_char k = ''0123456789'' ! k"

fun to_string :: "nat \<Rightarrow> string" where
  "to_string n =
     (if n < 10 then [digit_char n]
      else to_string (n div 10) @ [digit_char (n mod 10)])"

text \<open>
  The opening idiom shared by \<open>readPage\<close> and \<open>writePage\<close>:
  \<^verbatim>\<open>try { fileptr = File::open_file(file_name, mode); }
  catch (const std::exception& e) { std::ofstream file(file_name);
                                    fileptr = File::open_file(file_name, mode); }\<close>
  The result says whether a file is open afterwards; the second \<open>open_file\<close> is not
  guarded, so its exception leaves the function.
\<close>

definition open_or_create :: "'d file_ops \<Rightarrow> string \<Rightarrow> Mode \<Rightarrow> 'd \<Rightarrow> bool \<times> 'd" where
  "open_or_create ops file_name mode d =
     (case open_file ops file_name mode d of
        Some d1 \<Rightarrow> (True, d1)
      | None \<Rightarrow>
          (let d1 = ofstream_create ops file_name d
           in case open_file ops file_name mode d1 of
                Some d2 \<Rightarrow> (True, d2)
              | None \<Rightarrow> (False, d1)))"

text \<open>
  The methods of a frame that touch the disk take the frame and the disk and return an
  exception (\<open>None\<close> for a normal return) with the frame and the disk as they are left.
\<close>

definition readPage :: "'d file_ops \<Rightarrow> BufferFrame \<Rightarrow> 'd \<Rightarrow> exn option \<times> BufferFrame \<times> 'd" where
  "readPage ops f d =
     (let f1 = f\<lparr>data := Uninitialised\<rparr>;
          file_name = to_string (unat (segment_id f1))
      in case open_or_create ops file_name READ d of
           (False, d1) \<Rightarrow> (Some io_failure, f1, d1)
         | (True, d1) \<Rightarrow>
             (case read_block ops file_name (pageOffsetInFile f1) (page_size f1) d1 of
                None \<Rightarrow> (Some io_failure, f1, d1)
              | Some bytes \<Rightarrow> (None, f1\<lparr>data := Contents bytes, state := clean\<rparr>, d1)))"

definition writePage :: "'d file_ops \<Rightarrow> BufferFrame \<Rightarrow> 'd \<Rightarrow> exn option \<times> BufferFrame \<times> 'd" where
  "writePage ops f d =
     (let file_name = to_string (unat (segment_id f))
      in case open_or_create ops file_name WRITE d of
           (False, d1) \<Rightarrow> (Some io_failure, f, d1)
         | (True, d1) \<Rightarrow>
             (case write_block ops file_name (data f) (pageOffsetInFile f) (page_size f) d1 of
                None \<Rightarrow> (Some io_failure, f, d1)
              | Some d2 \<Rightarrow> (None, f\<lparr>state := clean\<rparr>, d2)))"

definition flush :: "'d file_ops \<Rightarrow> BufferFrame \<Rightarrow> 'd \<Rightarrow> exn option \<times> BufferFrame \<times> 'd" where
  "flush ops f d = (if state f = dirty then writePage ops f d else (None, f, d))"

text \<open>
  Two calls of \<open>flush\<close> in a row; the second is not reached when the first throws.
\<close>

definition flush_twice :: "'d file_ops \<Rightarrow> BufferFrame \<Rightarrow> 'd \<Rightarrow> exn option \<times> BufferFrame \<times> 'd" where
  "flush_twice ops f d =
     (case flush ops f d of
        (None, f1, d1) \<Rightarrow> flush ops f1 d1
      | (Some e, f1, d1) \<Rightarrow> (Some e, f1, d1))"

text \<open>\<open>get_data\<close> returns the \<open>data\<close> pointer of the frame it leaves.\<close>

definition get_data :: "'d file_ops \<Rightarrow> BufferFrame \<Rightarrow> 'd \<Rightarrow> exn option \<times> BufferFrame \<times> 'd" where
  "get_data ops f d = (if state f = empty then readPage ops f d else (None, f, d))"

section \<open>The buffer manager\<close>

text \<open>
  Frames live on the heap and the manager holds pointers to them: the frame table
  \<open>bufferFrameMap\<close> (an \<open>unordered_map\<close> from page id to frame pointer, here an
  association list with \<open>find\<close>, \<open>insert\<close>, \<open>erase\<close> and \<open>size\<close>), and the vectors
  \<open>fifo\<close> and \<open>lru\<close>. The state of the model is the manager's members together with the
  heap of frames (a map from addresses) and the disk. \<open>mtx\<close> says whether the manager's
  mutex is held. \<open>segmentsidMap\<close> is never written and is left out.
\<close>

type_synonym addr = nat

record 'd BufferManager =
  bm_page_size :: u64
  page_count :: u64
  mtx :: bool
  bufferFrameMap :: "(u64 \<times> addr) list"
  fifo :: "addr list"
  lru :: "addr list"
  heap :: "addr \<Rightarrow> BufferFrame option"
  disk :: 'd

definition new_BufferManager :: "u64 \<Rightarrow> u64 \<Rightarrow> 'd \<Rightarrow> 'd BufferManager" where
  "new_BufferManager psize pcount d =
     \<lparr> bm_page_size = psize, page_count = pcount, mtx = False, bufferFrameMap = [],
       fifo = [], lru = [], heap = (\<lambda>a. None), disk = d \<rparr>"

definition isFrameAvailable :: "'d BufferManager \<Rightarrow> bool" where
  "isFrameAvailable s = (length (bufferFrameMap s) < unat (page_count s))"

definition erase :: "u64 \<Rightarrow> (u64 \<times> addr) list \<Rightarrow> (u64 \<times> addr) list" where
  "erase k t = filter (\<lambda>e. fst e \<noteq> k) t"

text \<open>
  \<open>unordered_map::insert\<close> does nothing when the key is present; the second component
  is \<open>result.first->second\<close>, the pointer the table holds for the key afterwards.
\<close>

definition insert_table :: "u64 \<Rightarrow> addr \<Rightarrow> (u64 \<times> addr) list \<Rightarrow> (u64 \<times> addr) list \<times> addr" where
  "insert_table k v t =
     (case map_of t k of None \<Rightarrow> (t @ [(k, v)], v) | Some v' \<Rightarrow> (t, v'))"

text \<open>
  How a call of \<open>fix_page\<close> ends: it returns a frame, throws, is killed by
  \<open>std::terminate\<close> (an exception leaving a destructor), does not return because it waits
  for the manager's mutex or for a frame's latch, or dereferences a pointer to a frame that
  no longer exists.
\<close>

datatype outcome =
    Returned addr
  | Threw exn
  | Terminated
  | Blocked_on_mutex
  | Blocked_on_latch addr
  | Undefined_behaviour

text \<open>
  The victim scan of \<open>fix_page\<close>:
  \<^verbatim>\<open>for (it = fifo.begin(); it != fifo.end(); ++it)
     if ((*it)->lockWrite(false)) { replacementCandidate = *it; break; }\<close>
  A failed try-lock changes nothing; the successful one leaves the candidate latched
  exclusively, which is the frame the scan returns.
\<close>

datatype scan_result = Candidate addr BufferFrame | No_candidate | Dangling

fun find_candidate :: "addr list \<Rightarrow> (addr \<Rightarrow> BufferFrame option) \<Rightarrow> scan_result" where
  "find_candidate [] h = No_candidate"
| "find_candidate (a # as) h =
     (case h a of
        None \<Rightarrow> Dangling
      | Some f \<Rightarrow>
          (case lockWrite False (frameLock f) of
             Some (True, l') \<Rightarrow> Candidate a (f\<lparr>frameLock := l'\<rparr>)
           | _ \<Rightarrow> find_candidate as h))"

text \<open>
  The eviction of the candidate \<open>c\<close>, whose latched frame is \<open>f\<close>:
  \<^verbatim>\<open>replacementCandidate->flush();
  bufferFrameMap.erase(replacementCandidate->getPageID());
  fifo.erase(std::remove(fifo.begin(), fifo.end(), replacementCandidate), fifo.end());
  delete replacementCandidate;\<close>
  An exception of \<open>flush\<close> leaves \<open>fix_page\<close> at once: the candidate stays latched and the
  mutex stays held. The destructor run by \<open>delete\<close> destroys the lock, calls \<open>flush\<close>
  again and frees the data; an exception there ends the process. The result is \<open>None\<close>
  when control goes on to the allocation.
\<close>

definition evict :: "'d file_ops \<Rightarrow> addr \<Rightarrow> BufferFrame \<Rightarrow> 'd BufferManager \<Rightarrow> outcome option \<times> 'd BufferManager" where
  "evict ops c f s =
     (case flush ops f (disk s) of
        (Some e, f1, d1) \<Rightarrow> (Some (Threw e), s\<lparr>heap := (heap s)(c \<mapsto> f1), disk := d1\<rparr>)
      | (None, f1, d1) \<Rightarrow>
          (let s1 = s\<lparr>bufferFrameMap := erase (page_id f1) (bufferFrameMap s),
                      fifo := removeAll c (fifo s)\<rparr>
           in case flush ops f1 d1 of
                (Some e, f2, d2) \<Rightarrow> (Some Terminated, s1\<lparr>heap := (heap s)(c \<mapsto> f2), disk := d2\<rparr>)
              | (None, f2, d2) \<Rightarrow> (None, s1\<lparr>heap := (heap s)(c := None), disk := d2\<rparr>)))"

text \<open>
  The branch \<open>if (!isFrameAvailable()) { ... }\<close> of the miss path, entered with the
  mutex held. Without a candidate it releases the mutex and throws \<open>buffer_full_error\<close>.
\<close>

definition make_room :: "'d file_ops \<Rightarrow> 'd BufferManager \<Rightarrow> outcome option \<times> 'd BufferManager" where
  "make_room ops s =
     (if \<not> isFrameAvailable s then
        (case find_candidate (fifo s) (heap s) of
           Dangling \<Rightarrow> (Some Undefined_behaviour, s)
         | No_candidate \<Rightarrow> (Some (Threw buffer_full_error), s\<lparr>mtx := False\<rparr>)
         | Candidate c f \<Rightarrow> evict ops c f s)
      else (None, s))"

text \<open>
  The allocation that ends the miss path; \<open>new\<close> is the address \<open>operator new\<close> returns.
  \<^verbatim>\<open>frame = new BufferFrame(page_id, page_size, get_segment_id(page_id));
  auto result = bufferFrameMap.insert(std::make_pair(page_id, frame));
  fifo.push_back(result.first->second);
  if (exclusive) frame->lockWrite(true); else frame->lockRead(true);
  mtx.unlock();\<close>
\<close>

definition allocate :: "addr \<Rightarrow> u64 \<Rightarrow> bool \<Rightarrow> 'd BufferManager \<Rightarrow> outcome \<times> 'd BufferManager" where
  "allocate new pid exclusive s =
     (let frame = new_BufferFrame pid (bm_page_size s) (get_segment_id pid);
          (table, queued) = insert_table pid new (bufferFrameMap s);
          s1 = s\<lparr>heap := (heap s)(new \<mapsto> frame), bufferFrameMap := table,
                  fifo := fifo s @ [queued]\<rparr>
      in case (if exclusive then lockWrite True (frameLock frame)
               else lockRead True (frameLock frame)) of
           None \<Rightarrow> (Blocked_on_latch new, s1)
         | Some (locked, l') \<Rightarrow>
             (Returned new,
              s1\<lparr>heap := (heap s1)(new \<mapsto> frame\<lparr>frameLock := l'\<rparr>), mtx := False\<rparr>))"

text \<open>
  The hit path, entered with the mutex held, for the frame \<open>a\<close> the table holds:
  \<^verbatim>\<open>lru.erase(std::remove(lru.begin(), lru.end(), entry->second), lru.end());
  lru.push_back(entry->second);
  fifo.erase(std::remove(fifo.begin(), fifo.end(), entry->second), fifo.end());\<close>
  then the try-lock in the requested mode, \<open>mtx.unlock()\<close>, and the blocking lock when
  the try-lock failed. The blocking call runs in the state the try-lock saw, so it waits.
\<close>

definition hit_path :: "addr \<Rightarrow> bool \<Rightarrow> 'd BufferManager \<Rightarrow> outcome \<times> 'd BufferManager" where
  "hit_path a exclusive s =
     (let s1 = s\<lparr>lru := removeAll a (lru s) @ [a], fifo := removeAll a (fifo s)\<rparr>
      in case heap s1 a of
           None \<Rightarrow> (Undefined_behaviour, s1)
         | Some f \<Rightarrow>
             (case (if exclusive then lockWrite False (frameLock f)
                    else lockRead False (frameLock f)) of
                None \<Rightarrow> (Blocked_on_latch a, s1)
              | Some (locked, l1) \<Rightarrow>
                  (let s2 = s1\<lparr>heap := (heap s1)(a \<mapsto> f\<lparr>frameLock := l1\<rparr>), mtx := False\<rparr>
                   in if locked then (Returned a, s2)
                      else (case (if exclusive then lockWrite True l1 else lockRead True l1) of
                              None \<Rightarrow> (Blocked_on_latch a, s2)
                            | Some (locked', l2) \<Rightarrow>
                                (Returned a,
                                 s2\<lparr>heap := (heap s2)(a \<mapsto> f\<lparr>frameLock := l2\<rparr>)\<rparr>)))))"

text \<open>
  \<open>fix_page(page_id, exclusive)\<close>. \<open>mtx.lock()\<close> on a held mutex does not return.
\<close>

definition fix_page :: "'d file_ops \<Rightarrow> addr \<Rightarrow> u64 \<Rightarrow> bool \<Rightarrow> 'd BufferManager \<Rightarrow> outcome \<times> 'd BufferManager" where
  "fix_page ops new pid exclusive s =
     (if mtx s then (Blocked_on_mutex, s)
      else
        (let s0 = s\<lparr>mtx := True\<rparr>
         in case map_of (bufferFrameMap s0) pid of
              Some a \<Rightarrow> hit_path a exclusive s0
            | None \<Rightarrow>
                (case make_room ops s0 of
                   (Some out, s1) \<Rightarrow> (out, s1)
                 | (None, s1) \<Rightarrow> allocate new pid exclusive s1)))"

text \<open>
  The state in which \<open>fix_page\<close> calls \<open>operator new\<close>, when it gets there: an address
  can be returned if no frame lives at it then, which includes the address of the victim
  just deleted.
\<close>

definition fresh_at_allocation :: "'d file_ops \<Rightarrow> 'd BufferManager \<Rightarrow> addr \<Rightarrow> bool" where
  "fresh_at_allocation ops s new = (heap (snd (make_room ops (s\<lparr>mtx := True\<rparr>))) new = None)"

text \<open>
  A call of \<open>fix_page\<close> that waits for the latch of frame \<open>a\<close> goes on when the blocking
  \<open>lockWrite(true)\<close> or \<open>lockRead(true)\<close> can take the latch; it touches nothing else.
  \<open>None\<close>: the call still waits, or the frame has been deleted under it.
\<close>

definition resume_fix_page :: "addr \<Rightarrow> bool \<Rightarrow> 'd BufferManager \<Rightarrow> 'd BufferManager option" where
  "resume_fix_page a exclusive s =
     (case heap s a of
        None \<Rightarrow> None
      | Some f \<Rightarrow>
          (case (if exclusive then lockWrite True (frameLock f)
                 else lockRead True (frameLock f)) of
             None \<Rightarrow> None
           | Some (locked, l') \<Rightarrow> Some (s\<lparr>heap := (heap s)(a \<mapsto> f\<lparr>frameLock := l'\<rparr>)\<rparr>)))"

text \<open>
  \<open>unfix_page(page, is_dirty)\<close>: \<open>if (is_dirty) page.setDirty(); page.unlock();\<close>.
  \<open>None\<close> where the behaviour is undefined: the reference names no live frame, or the
  latch is not held.
\<close>

definition unfix_page :: "addr \<Rightarrow> bool \<Rightarrow> 'd BufferManager \<Rightarrow> 'd BufferManager option" where
  "unfix_page a is_dirty s =
     (case heap s a of
        None \<Rightarrow> None
      | Some f \<Rightarrow>
          (let f1 = (if is_dirty then setDirty f else f)
           in case unlock (frameLock f1) of
                None \<Rightarrow> None
              | Some l' \<Rightarrow> Some (s\<lparr>heap := (heap s)(a \<mapsto> f1\<lparr>frameLock := l'\<rparr>)\<rparr>)))"

text \<open>
  \<open>get_data\<close> on the frame at address \<open>a\<close>, and a caller storing bytes through the pointer
  it returned. \<open>None\<close> where no frame lives at \<open>a\<close>.
\<close>

definition frame_get_data :: "'d file_ops \<Rightarrow> addr \<Rightarrow> 'd BufferManager \<Rightarrow> (exn option \<times> 'd BufferManager) option" where
  "frame_get_data ops a s =
     (case heap s a of
        None \<Rightarrow> None
      | Some f \<Rightarrow>
          (case get_data ops f (disk s) of
             (e, f1, d1) \<Rightarrow> Some (e, s\<lparr>heap := (heap s)(a \<mapsto> f1), disk := d1\<rparr>)))"

definition caller_write :: "addr \<Rightarrow> byte list \<Rightarrow> 'd BufferManager \<Rightarrow> 'd BufferManager option" where
  "caller_write a bytes s =
     (case heap s a of
        None \<Rightarrow> None
      | Some f \<Rightarrow>
          (case data f of
             Nullptr \<Rightarrow> None
           | _ \<Rightarrow> Some (s\<lparr>heap := (heap s)(a \<mapsto> f\<lparr>data := Contents bytes\<rparr>)\<rparr>)))"

text \<open>
  The states a pool constructed with \<open>page_size\<close>, \<open>page_count\<close> on the disk \<open>d0\<close> can
  be in after any sequence of calls.
\<close>

inductive reachable :: "'d file_ops \<Rightarrow> u64 \<Rightarrow> u64 \<Rightarrow> 'd \<Rightarrow> 'd BufferManager \<Rightarrow> bool"
  for ops :: "'d file_ops" and psize :: u64 and pcount :: u64 and d0 :: 'd where
  constructed: "reachable ops psize pcount d0 (new_BufferManager psize pcount d0)"
| fixed: "reachable ops psize pcount d0 s \<Longrightarrow> fresh_at_allocation ops s new \<Longrightarrow>
          reachable ops psize pcount d0 (snd (fix_page ops new pid exclusive s))"
| resumed: "reachable ops psize pcount d0 s \<Longrightarrow> resume_fix_page a exclusive s = Some s' \<Longrightarrow>
          reachable ops psize pcount d0 s'"
| unfixed: "reachable ops psize pcount d0 s \<Longrightarrow> unfix_page a is_dirty s = Some s' \<Longrightarrow>
          reachable ops psize pcount d0 s'"
| read: "reachable ops psize pcount d0 s \<Longrightarrow> frame_get_data ops a s = Some (e, s') \<Longrightarrow>
          reachable ops psize pcount d0 s'"
| written: "reachable ops psize pcount d0 s \<Longrightarrow> caller_write a bytes s = Some s' \<Longrightarrow>
          reachable ops psize pcount d0 s'"

section \<open>The invariant of the pool\<close>

text \<open>
  What every state of a pool satisfies: the frame table has one entry per page id, each
  entry points to a live frame that carries the entry's page id, the two queues together
  hold exactly the frames of the table, each once, and the table holds at most
  \<open>page_count\<close> entries.
\<close>

definition pool_inv :: "'d BufferManager \<Rightarrow> bool" where
  "pool_inv s \<longleftrightarrow>
     distinct (map fst (bufferFrameMap s))
   \<and> (\<forall>(p, a) \<in> set (bufferFrameMap s). \<exists>f. heap s a = Some f \<and> page_id f = p)
   \<and> set (fifo s) \<union> set (lru s) = snd ` set (bufferFrameMap s)
   \<and> distinct (fifo s @ lru s)
   \<and> length (bufferFrameMap s) \<le> unat (page_count s)"

text \<open>
  What the constructor establishes for a frame of a pool with page size \<open>psize\<close>, and
  what no method changes afterwards: the page size, the segment id and the file offset
  derived from the page id.
\<close>

definition frame_wf :: "u64 \<Rightarrow> BufferFrame \<Rightarrow> bool" where
  "frame_wf psize f \<longleftrightarrow>
     page_size f = psize
   \<and> segment_id f = get_segment_id (page_id f)
   \<and> pageOffsetInFile f = get_segment_page_id (page_id f) * psize"

definition frames_wf :: "u64 \<Rightarrow> 'd BufferManager \<Rightarrow> bool" where
  "frames_wf psize s \<longleftrightarrow>
     bm_page_size s = psize \<and> (\<forall>a f. heap s a = Some f \<longrightarrow> frame_wf psize f)"

section \<open>A disk for the examples\<close>

text \<open>
  The examples run on a disk that records every block written, as the triple of file name,
  offset and data, and reads zero bytes. \<open>unreadable_ops\<close> is the same disk with a
  \<open>read_block\<close> that always throws.
\<close>

type_synonym write_log = "(string \<times> u64 \<times> buffer) list"

definition recording_ops :: "write_log file_ops" where
  "recording_ops =
     \<lparr> open_file = (\<lambda>file_name mode d. Some d),
       ofstream_create = (\<lambda>file_name d. d),
       read_block = (\<lambda>file_name offset size d. Some (replicate (unat size) 0)),
       write_block = (\<lambda>file_name buf offset size d. Some (d @ [(file_name, offset, buf)])) \<rparr>"

definition unreadable_ops :: "write_log file_ops" where
  "unreadable_ops = recording_ops\<lparr>read_block := (\<lambda>file_name offset size d. None)\<rparr>"

text \<open>
  The states of the examples: a pool of one page of 1024 bytes over the recording disk,
  written by its table, its queues, its heap and the blocks written so far; frames of
  segment 0, written by page id, state and latch.
\<close>

definition example_frame :: "u64 \<Rightarrow> FrameState \<Rightarrow> rwlock \<Rightarrow> BufferFrame" where
  "example_frame pid st l = (new_BufferFrame pid 1024 0)\<lparr>state := st, frameLock := l\<rparr>"

definition example_pool ::
  "(u64 \<times> addr) list \<Rightarrow> addr list \<Rightarrow> addr list \<Rightarrow> (addr \<Rightarrow> BufferFrame option) \<Rightarrow> write_log
     \<Rightarrow> write_log BufferManager" where
  "example_pool t q_fifo q_lru h d =
     \<lparr> bm_page_size = 1024, page_count = 1, mtx = False, bufferFrameMap = t,
       fifo = q_fifo, lru = q_lru, heap = h, disk = d \<rparr>"

declare to_string.simps [simp del]

section \<open>Page identifiers: the split and the file offset\<close>

lemma get_segment_id_ucast: "ucast (get_segment_id pid) = drop_bit 48 pid"
  unfolding get_segment_id_def
  by (rule bit_word_eqI) (auto simp: bit_simps dest: bit_imp_le_length)

lemma get_segment_id_unat: "unat (get_segment_id pid) = unat pid div 2 ^ 48"
proof -
  have "unat (get_segment_id pid) = unat (ucast (get_segment_id pid) :: u64)"
  proof -
    have "unat (get_segment_id pid) < 2 ^ 16"
      using unsigned_less [of "get_segment_id pid"] by simp
    then have "take_bit 64 (unat (get_segment_id pid)) = unat (get_segment_id pid)"
      by (simp add: take_bit_nat_eq_self)
    then show ?thesis by (simp add: unsigned_ucast_eq)
  qed
  also have "\<dots> = unat (drop_bit 48 pid)" by (simp only: get_segment_id_ucast)
  also have "\<dots> = drop_bit 48 (unat pid)" by (rule unat_drop_bit_eq)
  also have "\<dots> = unat pid div 2 ^ 48" by (rule drop_bit_eq_div)
  finally show ?thesis .
qed

lemma get_segment_page_id_mask: "get_segment_page_id pid = pid AND mask 48"
  by (simp add: get_segment_page_id_def mask_eq_decr_exp)

lemma get_segment_page_id_unat: "unat (get_segment_page_id pid) = unat pid mod 2 ^ 48"
proof -
  have "unat (get_segment_page_id pid) = unat (take_bit 48 pid)"
    by (simp only: get_segment_page_id_mask take_bit_eq_mask)
  also have "\<dots> = take_bit 48 (unat pid)" by (rule unsigned_take_bit_eq)
  also have "\<dots> = unat pid mod 2 ^ 48" by (rule take_bit_eq_mod)
  finally show ?thesis .
qed

section \<open>Frames: write-back\<close>

lemma writePage_exn: "writePage ops f d = (Some e, f', d') \<Longrightarrow> e = io_failure \<and> f' = f"
  by (auto simp: writePage_def Let_def split: prod.splits bool.splits option.splits)

lemma writePage_ok: "writePage ops f d = (None, f', d') \<Longrightarrow> f' = f\<lparr>state := clean\<rparr>"
  by (auto simp: writePage_def Let_def split: prod.splits bool.splits option.splits)

lemma flush_exn:
  "flush ops f d = (Some e, f', d') \<Longrightarrow> e = io_failure \<and> f' = f \<and> state f = dirty"
  by (auto simp: flush_def dest: writePage_exn split: if_splits)

lemma flush_ok:
  "flush ops f d = (None, f', d') \<Longrightarrow>
     state f' \<noteq> dirty \<and> f' = f\<lparr>state := (if state f = dirty then clean else state f)\<rparr>"
  by (auto simp: flush_def dest: writePage_ok split: if_splits)

lemma flush_frame:
  "flush ops f d = (e, f', d') \<Longrightarrow>
     page_id f' = page_id f \<and> frameLock f' = frameLock f \<and> data f' = data f"
  by (cases e) (auto dest: flush_ok flush_exn)

lemma flush_again: "flush ops f d = (None, f', d') \<Longrightarrow> flush ops f' d' = (None, f', d')"
  by (auto simp: flush_def dest: writePage_ok split: if_splits)

text \<open>
  C7. \<open>flush\<close> on a dirty frame writes the frame's data to the file named after its
  segment, at the frame's offset and over its page size, and leaves the frame clean (when
  the file opens and the write goes through); on a clean or empty frame it does nothing;
  and a second \<open>flush\<close> right after the first changes neither the frame nor the disk.
\<close>

theorem C7_flush:
  "(state f = dirty \<longrightarrow>
      open_or_create ops (to_string (unat (segment_id f))) WRITE d = (True, d1) \<longrightarrow>
      write_block ops (to_string (unat (segment_id f))) (data f) (pageOffsetInFile f)
        (page_size f) d1 = Some d2 \<longrightarrow>
      flush ops f d = (None, f\<lparr>state := clean\<rparr>, d2))
   \<and> (state f \<noteq> dirty \<longrightarrow> flush ops f d = (None, f, d))
   \<and> flush_twice ops f d = flush ops f d"
proof -
  have "flush_twice ops f d = flush ops f d"
  proof (cases "flush ops f d")
    case (fields e f1 d1)
    then show ?thesis
      by (cases e) (simp_all add: flush_twice_def flush_again)
  qed
  then show ?thesis
    by (simp add: flush_def writePage_def Let_def)
qed

theorem C7_flush_witness:
  "flush recording_ops
     ((new_BufferFrame 5 1024 0)\<lparr>state := dirty, data := Contents [171, 171]\<rparr>) []
   = (None, (new_BufferFrame 5 1024 0)\<lparr>state := clean, data := Contents [171, 171]\<rparr>,
      [(''0'', 5120, Contents [171, 171])])
   \<and> flush_twice recording_ops
     ((new_BufferFrame 5 1024 0)\<lparr>state := dirty, data := Contents [171, 171]\<rparr>) []
   = (None, (new_BufferFrame 5 1024 0)\<lparr>state := clean, data := Contents [171, 171]\<rparr>,
      [(''0'', 5120, Contents [171, 171])])
   \<and> flush recording_ops ((new_BufferFrame 5 1024 0)\<lparr>state := clean\<rparr>) []
   = (None, (new_BufferFrame 5 1024 0)\<lparr>state := clean\<rparr>, [])"
  using C7_flush [of "(new_BufferFrame 5 1024 0)\<lparr>state := dirty, data := Contents [171, 171]\<rparr>"
                     recording_ops "[]" "[]" "[(''0'', 5120, Contents [171, 171])]"]
        C7_flush [of "(new_BufferFrame 5 1024 0)\<lparr>state := clean\<rparr>" recording_ops "[]"]
  by (simp add: new_BufferFrame_def recording_ops_def open_or_create_def to_string.simps
        digit_char_def)

section \<open>Unfixing\<close>

text \<open>
  C8. \<open>unfix_page(frame, is_dirty)\<close>, called on a live frame whose latch is held, sets the
  frame's state to dirty when \<open>is_dirty\<close> and releases the latch once; nothing else in the
  pool changes: the frame table, both queues, the frame's page id and data, the other
  frames, the disk.
\<close>

theorem C8_unfix_page:
  "(heap s a = Some f \<and> frameLock f \<noteq> Unlocked \<longrightarrow> unfix_page a is_dirty s \<noteq> None)
   \<and> (unfix_page a is_dirty s = Some s' \<longrightarrow>
        (\<exists>f l'. heap s a = Some f \<and> unlock (frameLock f) = Some l'
           \<and> s' = s\<lparr>heap := (heap s)(a \<mapsto>
                     f\<lparr>state := (if is_dirty then dirty else state f), frameLock := l'\<rparr>)\<rparr>)
        \<and> bufferFrameMap s' = bufferFrameMap s \<and> fifo s' = fifo s \<and> lru s' = lru s
        \<and> disk s' = disk s \<and> mtx s' = mtx s
        \<and> map_option page_id (heap s' a) = map_option page_id (heap s a)
        \<and> map_option data (heap s' a) = map_option data (heap s a)
        \<and> (\<forall>b. b \<noteq> a \<longrightarrow> heap s' b = heap s b))"
proof -
  have defined: "unfix_page a is_dirty s \<noteq> None" if "heap s a = Some f" "frameLock f \<noteq> Unlocked"
  proof -
    from that(2) have "unlock (frameLock f) \<noteq> None"
      by (cases "frameLock f" rule: unlock.cases) simp_all
    with that(1) show ?thesis
      by (auto simp: unfix_page_def setDirty_def Let_def)
  qed
  have effect: "\<exists>f l'. heap s a = Some f \<and> unlock (frameLock f) = Some l'
           \<and> s' = s\<lparr>heap := (heap s)(a \<mapsto>
                     f\<lparr>state := (if is_dirty then dirty else state f), frameLock := l'\<rparr>)\<rparr>"
    if "unfix_page a is_dirty s = Some s'"
    using that
    by (auto simp: unfix_page_def setDirty_def Let_def split: option.splits if_splits)
  show ?thesis
  proof (intro conjI impI)
    assume "heap s a = Some f \<and> frameLock f \<noteq> Unlocked"
    then show "unfix_page a is_dirty s \<noteq> None" using defined by blast
  next
    assume u: "unfix_page a is_dirty s = Some s'"
    from effect [OF u] show "\<exists>f l'. heap s a = Some f \<and> unlock (frameLock f) = Some l'
           \<and> s' = s\<lparr>heap := (heap s)(a \<mapsto>
                     f\<lparr>state := (if is_dirty then dirty else state f), frameLock := l'\<rparr>)\<rparr>" .
  qed (use effect in \<open>auto\<close>)
qed

theorem C8_unfix_page_witness:
  "unfix_page 0 True (snd (fix_page recording_ops 0 7 True (new_BufferManager 1024 3 []))) \<noteq> None
   \<and> map_option state
        (heap (the (unfix_page 0 True
           (snd (fix_page recording_ops 0 7 True (new_BufferManager 1024 3 []))))) 0) = Some dirty
   \<and> map_option frameLock
        (heap (the (unfix_page 0 True
           (snd (fix_page recording_ops 0 7 True (new_BufferManager 1024 3 []))))) 0) = Some Unlocked
   \<and> fifo (the (unfix_page 0 True
           (snd (fix_page recording_ops 0 7 True (new_BufferManager 1024 3 []))))) = [0]"
  using C8_unfix_page [of "snd (fix_page recording_ops 0 7 True (new_BufferManager 1024 3 []))" 0
          "(new_BufferFrame 7 1024 (get_segment_id 7))\<lparr>frameLock := WriteLocked\<rparr>" True
          "the (unfix_page 0 True
             (snd (fix_page recording_ops 0 7 True (new_BufferManager 1024 3 []))))"]
  by (simp add: fix_page_def make_room_def isFrameAvailable_def allocate_def insert_table_def
        new_BufferManager_def lockWrite_def unfix_page_def setDirty_def new_BufferFrame_def Let_def)

section \<open>How \<open>fix_page\<close> can end\<close>

lemma hit_path_no_throw: "fst (hit_path a exclusive s) \<noteq> Threw e"
  by (auto simp: hit_path_def Let_def split: option.splits prod.splits)

lemma allocate_no_throw: "fst (allocate new pid exclusive s) \<noteq> Threw e"
  by (auto simp: allocate_def Let_def split: option.splits prod.splits)

lemma evict_throw: "evict ops c f s = (Some (Threw e), s') \<Longrightarrow> e = io_failure"
  by (auto simp: evict_def Let_def dest: flush_exn split: option.splits prod.splits)

lemma make_room_buffer_full:
  "make_room ops s = (Some (Threw buffer_full_error), s') \<Longrightarrow>
     s' = s\<lparr>mtx := False\<rparr> \<and> \<not> isFrameAvailable s
     \<and> find_candidate (fifo s) (heap s) = No_candidate"
  by (auto simp: make_room_def dest: evict_throw split: if_splits scan_result.splits)

lemma fix_page_buffer_full:
  "fix_page ops new pid exclusive s = (Threw buffer_full_error, s') \<longleftrightarrow>
     s' = s \<and> \<not> mtx s \<and> map_of (bufferFrameMap s) pid = None \<and> \<not> isFrameAvailable s
     \<and> find_candidate (fifo s) (heap s) = No_candidate"
proof
  assume thrown: "fix_page ops new pid exclusive s = (Threw buffer_full_error, s')"
  then have free: "\<not> mtx s"
    by (auto simp: fix_page_def)
  show "s' = s \<and> \<not> mtx s \<and> map_of (bufferFrameMap s) pid = None \<and> \<not> isFrameAvailable s
     \<and> find_candidate (fifo s) (heap s) = No_candidate"
  proof (cases "map_of (bufferFrameMap s) pid")
    case (Some a)
    with thrown free hit_path_no_throw [of a exclusive "s\<lparr>mtx := True\<rparr>" buffer_full_error]
    show ?thesis by (simp add: fix_page_def)
  next
    case None
    obtain r s1 where mr: "make_room ops (s\<lparr>mtx := True\<rparr>) = (r, s1)"
      by (cases "make_room ops (s\<lparr>mtx := True\<rparr>)")
    show ?thesis
    proof (cases r)
      case None
      with thrown free \<open>map_of (bufferFrameMap s) pid = None\<close> mr
        allocate_no_throw [of new pid exclusive s1 buffer_full_error]
      show ?thesis by (simp add: fix_page_def)
    next
      case (Some out)
      with thrown free \<open>map_of (bufferFrameMap s) pid = None\<close> mr
      have "make_room ops (s\<lparr>mtx := True\<rparr>) = (Some (Threw buffer_full_error), s')"
        by (simp add: fix_page_def)
      from make_room_buffer_full [OF this] free \<open>map_of (bufferFrameMap s) pid = None\<close>
      show ?thesis by (simp add: isFrameAvailable_def)
    qed
  qed
next
  assume "s' = s \<and> \<not> mtx s \<and> map_of (bufferFrameMap s) pid = None \<and> \<not> isFrameAvailable s
     \<and> find_candidate (fifo s) (heap s) = No_candidate"
  then show "fix_page ops new pid exclusive s = (Threw buffer_full_error, s')"
    by (simp add: fix_page_def make_room_def isFrameAvailable_def)
qed

text \<open>
  C3. When \<open>fix_page\<close> ends by throwing \<open>buffer_full_error\<close>, the state after the call is
  the state before it: the frame table, both queues, every frame with its latch, the disk
  and the mutex are as they were.
\<close>

theorem C3_buffer_full_keeps_state:
  "fix_page ops new pid exclusive s = (Threw buffer_full_error, s') \<Longrightarrow> s' = s"
  by (simp add: fix_page_buffer_full)

theorem C3_buffer_full_keeps_state_witness:
  "fst (fix_page recording_ops 1 2 False
          (snd (fix_page recording_ops 0 1 True (new_BufferManager 1024 1 []))))
     = Threw buffer_full_error
   \<and> snd (fix_page recording_ops 1 2 False
          (snd (fix_page recording_ops 0 1 True (new_BufferManager 1024 1 []))))
     = snd (fix_page recording_ops 0 1 True (new_BufferManager 1024 1 []))"
proof -
  have full: "fst (fix_page recording_ops 1 2 False
          (snd (fix_page recording_ops 0 1 True (new_BufferManager 1024 1 []))))
     = Threw buffer_full_error"
    by (simp add: fix_page_def make_room_def isFrameAvailable_def allocate_def insert_table_def
        new_BufferManager_def lockWrite_def new_BufferFrame_def Let_def)
  then have "fix_page recording_ops 1 2 False
          (snd (fix_page recording_ops 0 1 True (new_BufferManager 1024 1 [])))
     = (Threw buffer_full_error, snd (fix_page recording_ops 1 2 False
          (snd (fix_page recording_ops 0 1 True (new_BufferManager 1024 1 [])))))"
    by (simp add: prod_eq_iff)
  from C3_buffer_full_keeps_state [OF this] full show ?thesis by simp
qed

section \<open>The invariant is kept by every operation\<close>

lemma pool_inv_entry:
  "pool_inv s \<Longrightarrow> (p, a) \<in> set (bufferFrameMap s) \<Longrightarrow> \<exists>f. heap s a = Some f \<and> page_id f = p"
  by (auto simp: pool_inv_def)

lemma pool_inv_queued:
  "pool_inv s \<Longrightarrow> a \<in> set (fifo s) \<union> set (lru s) \<Longrightarrow>
     \<exists>f. heap s a = Some f \<and> (page_id f, a) \<in> set (bufferFrameMap s)"
proof -
  assume inv: "pool_inv s" and q: "a \<in> set (fifo s) \<union> set (lru s)"
  then have "a \<in> snd ` set (bufferFrameMap s)" by (simp add: pool_inv_def)
  then obtain p where "(p, a) \<in> set (bufferFrameMap s)" by auto
  with pool_inv_entry [OF inv this] show ?thesis by auto
qed

lemma pool_inv_same_frame:
  "pool_inv s \<Longrightarrow> (p, a) \<in> set (bufferFrameMap s) \<Longrightarrow> (q, a) \<in> set (bufferFrameMap s) \<Longrightarrow> p = q"
  using pool_inv_entry [of s p a] pool_inv_entry [of s q a] by auto

lemma pool_inv_heap_update:
  assumes "pool_inv s" "heap s a = Some f" "page_id f' = page_id f"
  shows "pool_inv (s\<lparr>heap := (heap s)(a \<mapsto> f')\<rparr>)"
  using assms unfolding pool_inv_def by (auto split: prod.splits) 

lemma removeAll_distinct_append:
  "distinct (xs @ ys) \<Longrightarrow> distinct (removeAll a xs @ removeAll a ys @ [a])"
  by (auto simp: distinct_removeAll)

lemma hit_path_inv:
  assumes "pool_inv s" "map_of (bufferFrameMap s) pid = Some a"
  shows "pool_inv (snd (hit_path a exclusive s))"
proof -
  let ?s1 = "s\<lparr>lru := removeAll a (lru s) @ [a], fifo := removeAll a (fifo s)\<rparr>"
  from assms(2) have mem: "(pid, a) \<in> set (bufferFrameMap s)" by (rule map_of_SomeD)
  then have "a \<in> snd ` set (bufferFrameMap s)" by force
  with assms(1) have q: "a \<in> set (fifo s) \<union> set (lru s)" by (simp add: pool_inv_def)
  have inv1: "pool_inv ?s1"
    using assms(1) q removeAll_distinct_append [of "fifo s" "lru s" a]
    unfolding pool_inv_def by auto
  from pool_inv_entry [OF assms(1) mem] obtain f where f: "heap s a = Some f" by auto
  have upd: "pool_inv (?s1\<lparr>heap := (heap ?s1)(a \<mapsto> f\<lparr>frameLock := l\<rparr>)\<rparr>)" for l
    by (rule pool_inv_heap_update [OF inv1]) (simp_all add: f)
  have mtx_irrelevant: "pool_inv (t\<lparr>mtx := b\<rparr>) = pool_inv t" for t :: "'a BufferManager" and b
    by (simp add: pool_inv_def)
  show ?thesis
    using inv1 upd f
    by (auto simp: hit_path_def Let_def pool_inv_def split: option.splits prod.splits)
qed

lemma mtx_update_inv [simp]: "pool_inv (t\<lparr>mtx := b\<rparr>) = pool_inv t"
  by (simp add: pool_inv_def)

lemma find_candidate_Candidate:
  "find_candidate q h = Candidate c f \<Longrightarrow>
     c \<in> set q \<and> (\<exists>f0. h c = Some f0 \<and> frameLock f0 = Unlocked \<and> f = f0\<lparr>frameLock := WriteLocked\<rparr>)"
proof (induction q)
  case Nil
  then show ?case by simp
next
  case (Cons a q)
  show ?case
  proof (cases "h a")
    case None
    with Cons.prems show ?thesis by simp
  next
    case (Some g)
    show ?thesis
    proof (cases "frameLock g")
      case Unlocked
      with Some Cons.prems show ?thesis by (auto simp: lockWrite_def)
    next
      case (ReadLocked n)
      with Some Cons show ?thesis by (auto simp: lockWrite_def)
    next
      case WriteLocked
      with Some Cons show ?thesis by (auto simp: lockWrite_def)
    qed
  qed
qed

lemma find_candidate_No_candidate:
  "find_candidate q h = No_candidate \<longleftrightarrow>
     (\<forall>a \<in> set q. \<exists>f. h a = Some f \<and> frameLock f \<noteq> Unlocked)"
proof (induction q)
  case Nil
  then show ?case by simp
next
  case (Cons a q)
  show ?case
  proof (cases "h a")
    case None
    then show ?thesis by simp
  next
    case (Some g)
    with Cons show ?thesis
      by (cases "frameLock g") (auto simp: lockWrite_def)
  qed
qed

lemma erase_length:
  "distinct (map fst t) \<Longrightarrow> (p, a) \<in> set t \<Longrightarrow> Suc (length (erase p t)) = length t"
proof (induction t)
  case Nil
  then show ?case by simp
next
  case (Cons e t)
  show ?case
  proof (cases "fst e = p")
    case True
    with Cons.prems(1) have "p \<notin> fst ` set t" by simp
    then have "\<forall>x \<in> set t. fst x \<noteq> p" by blast
    then have "filter (\<lambda>e. fst e \<noteq> p) t = t" by (simp add: filter_id_conv)
    with True show ?thesis by (simp add: erase_def)
  next
    case False
    with Cons show ?thesis by (auto simp: erase_def)
  qed
qed

lemma erase_set: "set (erase p t) = {e \<in> set t. fst e \<noteq> p}"
  by (auto simp: erase_def)

lemma erase_distinct: "distinct (map fst t) \<Longrightarrow> distinct (map fst (erase p t))"
  by (simp add: erase_def distinct_map_filter)

lemma erase_map_of: "map_of t k = None \<Longrightarrow> map_of (erase p t) k = None"
  by (auto simp: map_of_eq_None_iff erase_set)

lemma evict_result:
  assumes "evict ops c f s = (r, s')"
  shows "(\<exists>e f1 d1. r = Some (Threw e) \<and> s' = s\<lparr>heap := (heap s)(c \<mapsto> f), disk := d1\<rparr>
            \<and> flush ops f (disk s) = (Some e, f1, d1))
         \<or> (\<exists>f1 d1. r = None \<and> flush ops f (disk s) = (None, f1, d1)
            \<and> s' = s\<lparr>bufferFrameMap := erase (page_id f) (bufferFrameMap s),
                      fifo := removeAll c (fifo s),
                      heap := (heap s)(c := None), disk := d1\<rparr>)"
proof (cases "flush ops f (disk s)")
  case (fields e f1 d1)
  show ?thesis
  proof (cases e)
    case None
    with fields have again: "flush ops f1 d1 = (None, f1, d1)" by (simp add: flush_again)
    from fields None have "page_id f1 = page_id f" by (auto dest: flush_frame)
    with assms fields None again show ?thesis by (simp add: evict_def Let_def)
  next
    case (Some x)
    with fields have "f1 = f" by (auto dest: flush_exn)
    with assms fields Some show ?thesis by (simp add: evict_def)
  qed
qed

lemma pool_inv_disk [simp]: "pool_inv (t\<lparr>disk := d\<rparr>) = pool_inv t"
  by (simp add: pool_inv_def)

lemma pool_inv_remove:
  assumes inv: "pool_inv s" and c: "c \<in> set (fifo s)" and h: "heap s c = Some f0"
  shows "pool_inv (s\<lparr>bufferFrameMap := erase (page_id f0) (bufferFrameMap s),
                      fifo := removeAll c (fifo s), heap := (heap s)(c := None)\<rparr>)
         \<and> Suc (length (erase (page_id f0) (bufferFrameMap s))) = length (bufferFrameMap s)"
proof -
  let ?t = "bufferFrameMap s"
  let ?p = "page_id f0"
  from pool_inv_queued [OF inv, of c] c h have entry: "(?p, c) \<in> set ?t" by auto
  from inv have dist: "distinct (map fst ?t)" by (simp add: pool_inv_def)
  have other: "a \<noteq> c" if "(p, a) \<in> set ?t" "p \<noteq> ?p" for p a
    using that entry pool_inv_same_frame [OF inv, of p a ?p] by auto
  have only: "a = c" if "(?p, a) \<in> set ?t" for a
    using that entry dist by (meson eq_key_imp_eq_value)
  have len: "Suc (length (erase ?p ?t)) = length ?t"
    by (rule erase_length [OF dist entry])
  have c_lru: "c \<notin> set (lru s)"
    using inv c by (auto simp: pool_inv_def)
  have ran: "snd ` set (erase ?p ?t) = snd ` set ?t - {c}"
  proof (intro set_eqI iffI)
    fix a assume "a \<in> snd ` set (erase ?p ?t)"
    then obtain p where "(p, a) \<in> set ?t" "p \<noteq> ?p" by (auto simp: erase_set)
    then show "a \<in> snd ` set ?t - {c}" using other by force
  next
    fix a assume "a \<in> snd ` set ?t - {c}"
    then obtain p where pa: "(p, a) \<in> set ?t" and "a \<noteq> c" by auto
    with only have "p \<noteq> ?p" by auto
    with pa show "a \<in> snd ` set (erase ?p ?t)" by (force simp: erase_set)
  qed
  have queues: "set (removeAll c (fifo s)) \<union> set (lru s) = snd ` set (erase ?p ?t)"
    using inv c_lru ran by (auto simp: pool_inv_def)
  have d: "distinct (removeAll c (fifo s) @ lru s)"
    using inv by (auto simp: pool_inv_def distinct_removeAll)
  have entries: "\<exists>f. ((heap s)(c := None)) a = Some f \<and> page_id f = p"
    if "(p, a) \<in> set (erase ?p ?t)" for p a
  proof -
    from that have pa: "(p, a) \<in> set ?t" and "p \<noteq> ?p" by (auto simp: erase_set)
    then have "a \<noteq> c" by (rule other)
    with pool_inv_entry [OF inv pa] show ?thesis by simp
  qed
  have bound: "length (erase ?p ?t) \<le> unat (page_count s)"
    using len inv by (simp add: pool_inv_def)
  let ?s' = "s\<lparr>bufferFrameMap := erase ?p ?t, fifo := removeAll c (fifo s),
                 heap := (heap s)(c := None)\<rparr>"
  have "pool_inv ?s'"
    unfolding pool_inv_def
  proof (intro conjI)
    show "distinct (map fst (bufferFrameMap ?s'))"
      using erase_distinct [OF dist, of ?p] by simp
    show "\<forall>(p, a) \<in> set (bufferFrameMap ?s'). \<exists>f. heap ?s' a = Some f \<and> page_id f = p"
      using entries by (simp add: split_beta) 
    show "set (fifo ?s') \<union> set (lru ?s') = snd ` set (bufferFrameMap ?s')"
      using queues by simp
    show "distinct (fifo ?s' @ lru ?s')"
      using d by simp
    show "length (bufferFrameMap ?s') \<le> unat (page_count ?s')"
      using bound by simp
  qed
  with len show ?thesis by simp
qed

lemma make_room_inv:
  assumes inv: "pool_inv s" and mr: "make_room ops s = (r, s')"
  shows "pool_inv s' \<and> page_count s' = page_count s
         \<and> (r = None \<longrightarrow> isFrameAvailable s')
         \<and> (\<forall>p. map_of (bufferFrameMap s) p = None \<longrightarrow> map_of (bufferFrameMap s') p = None)
         \<and> set (lru s) \<subseteq> dom (heap s') \<and> lru s' = lru s \<and> set (fifo s') \<subseteq> set (fifo s)"
proof (cases "isFrameAvailable s")
  case True
  with mr have "r = None" "s' = s" by (auto simp: make_room_def)
  with inv True pool_inv_queued [OF inv] show ?thesis by auto
next
  case False
  have lru_live: "set (lru s) \<subseteq> dom (heap s)"
    using pool_inv_queued [OF inv] by auto
  show ?thesis
  proof (cases "find_candidate (fifo s) (heap s)")
    case (Candidate c f)
    from find_candidate_Candidate [OF this] obtain f0 where
      c: "c \<in> set (fifo s)" and h: "heap s c = Some f0" and f: "f = f0\<lparr>frameLock := WriteLocked\<rparr>"
      by auto
    from mr False Candidate have ev: "evict ops c f s = (r, s')" by (simp add: make_room_def)
    have c_lru: "c \<notin> set (lru s)"
      using inv c by (auto simp: pool_inv_def)
    from evict_result [OF ev] show ?thesis
    proof (elim disjE exE conjE)
      fix e f1 d1
      assume "r = Some (Threw e)" and s': "s' = s\<lparr>heap := (heap s)(c \<mapsto> f), disk := d1\<rparr>"
      have "pool_inv (s\<lparr>heap := (heap s)(c \<mapsto> f)\<rparr>)"
        by (rule pool_inv_heap_update [OF inv h]) (simp add: f)
      with s' \<open>r = Some (Threw e)\<close> lru_live show ?thesis by auto
    next
      fix f1 d1
      assume r: "r = None"
        and s': "s' = s\<lparr>bufferFrameMap := erase (page_id f) (bufferFrameMap s),
                      fifo := removeAll c (fifo s), heap := (heap s)(c := None), disk := d1\<rparr>"
      have pf: "page_id f = page_id f0" by (simp add: f)
      from pool_inv_remove [OF inv c h] pf s'
      have inv': "pool_inv s'"
        and len: "Suc (length (bufferFrameMap s')) = length (bufferFrameMap s)"
        by simp_all
      from len inv s' have "isFrameAvailable s'"
        by (simp add: isFrameAvailable_def pool_inv_def)
      with inv' r s' lru_live c_lru show ?thesis
        by (auto simp: erase_map_of)
    qed
  next
    case No_candidate
    with mr False have "s' = s\<lparr>mtx := False\<rparr>" "r = Some (Threw buffer_full_error)"
      by (auto simp: make_room_def)
    with inv lru_live show ?thesis by auto
  next
    case Dangling
    with mr False have "s' = s" "r = Some Undefined_behaviour"
      by (auto simp: make_room_def)
    with inv lru_live show ?thesis by auto
  qed
qed

lemma allocate_result:
  assumes miss: "map_of (bufferFrameMap s) pid = None"
  shows "\<exists>l. allocate new pid exclusive s =
           (Returned new,
            s\<lparr>heap := (heap s)(new \<mapsto>
                    (new_BufferFrame pid (bm_page_size s) (get_segment_id pid))\<lparr>frameLock := l\<rparr>),
              bufferFrameMap := bufferFrameMap s @ [(pid, new)],
              fifo := fifo s @ [new], mtx := False\<rparr>)
         \<and> l = (if exclusive then WriteLocked else ReadLocked 0)"
  using miss
  by (simp add: allocate_def insert_table_def new_BufferFrame_def lockWrite_def lockRead_def)

lemma allocate_inv:
  assumes inv: "pool_inv s" and room: "isFrameAvailable s"
    and miss: "map_of (bufferFrameMap s) pid = None" and fresh: "heap s new = None"
  shows "pool_inv (snd (allocate new pid exclusive s))"
proof -
  let ?t = "bufferFrameMap s"
  from allocate_result [OF miss, of new exclusive] obtain l where
    res: "snd (allocate new pid exclusive s) =
            s\<lparr>heap := (heap s)(new \<mapsto>
                    (new_BufferFrame pid (bm_page_size s) (get_segment_id pid))\<lparr>frameLock := l\<rparr>),
              bufferFrameMap := ?t @ [(pid, new)],
              fifo := fifo s @ [new], mtx := False\<rparr>" (is "_ = ?s'")
    by auto
  from miss have key: "pid \<notin> fst ` set ?t" by (simp add: map_of_eq_None_iff)
  have not_queued: "new \<notin> set (fifo s) \<union> set (lru s)"
    using pool_inv_queued [OF inv, of new] fresh by auto
  have "pool_inv ?s'"
    unfolding pool_inv_def
  proof (intro conjI)
    show "distinct (map fst (bufferFrameMap ?s'))"
      using inv key by (simp add: pool_inv_def)
    show "\<forall>(p, a) \<in> set (bufferFrameMap ?s'). \<exists>f. heap ?s' a = Some f \<and> page_id f = p"
    proof (clarify)
      fix p a assume "(p, a) \<in> set (bufferFrameMap ?s')"
      then consider "(p, a) \<in> set ?t" | "p = pid" "a = new" by auto
      then show "\<exists>f. heap ?s' a = Some f \<and> page_id f = p"
      proof cases
        case 1
        from pool_inv_entry [OF inv 1] fresh have "a \<noteq> new" by auto
        with pool_inv_entry [OF inv 1] show ?thesis by simp
      next
        case 2
        then show ?thesis by (simp add: new_BufferFrame_def)
      qed
    qed
    show "set (fifo ?s') \<union> set (lru ?s') = snd ` set (bufferFrameMap ?s')"
      using inv by (auto simp: pool_inv_def)
    show "distinct (fifo ?s' @ lru ?s')"
      using inv not_queued by (auto simp: pool_inv_def)
    show "length (bufferFrameMap ?s') \<le> unat (page_count ?s')"
      using room by (simp add: isFrameAvailable_def)
  qed
  with res show ?thesis by simp
qed

lemma fix_page_inv:
  assumes inv: "pool_inv s" and fresh: "fresh_at_allocation ops s new"
  shows "pool_inv (snd (fix_page ops new pid exclusive s))"
proof (cases "mtx s")
  case True
  with inv show ?thesis by (simp add: fix_page_def)
next
  case False
  let ?s0 = "s\<lparr>mtx := True\<rparr>"
  have inv0: "pool_inv ?s0" using inv by simp
  show ?thesis
  proof (cases "map_of (bufferFrameMap s) pid")
    case (Some a)
    with hit_path_inv [OF inv0, of pid a exclusive] False show ?thesis
      by (simp add: fix_page_def)
  next
    case None
    obtain r s1 where mr: "make_room ops ?s0 = (r, s1)"
      by (cases "make_room ops ?s0")
    note m = make_room_inv [OF inv0 mr]
    show ?thesis
    proof (cases r)
      case (Some out)
      with None False mr m show ?thesis by (simp add: fix_page_def)
    next
      case r: None
      from fresh mr have "heap s1 new = None" by (simp add: fresh_at_allocation_def)
      moreover from m None have "map_of (bufferFrameMap s1) pid = None" by simp
      moreover from m r have "isFrameAvailable s1" "pool_inv s1" by simp_all
      ultimately have "pool_inv (snd (allocate new pid exclusive s1))"
        by (intro allocate_inv)
      with None False mr r show ?thesis by (simp add: fix_page_def)
    qed
  qed
qed

lemma resume_fix_page_inv: "pool_inv s \<Longrightarrow> resume_fix_page a exclusive s = Some s' \<Longrightarrow> pool_inv s'"
  by (auto simp: resume_fix_page_def split: option.splits prod.splits
           intro!: pool_inv_heap_update)

lemma unfix_page_inv: "pool_inv s \<Longrightarrow> unfix_page a is_dirty s = Some s' \<Longrightarrow> pool_inv s'"
  by (auto simp: unfix_page_def setDirty_def Let_def split: option.splits if_splits
           intro!: pool_inv_heap_update)

lemma readPage_page_id: "readPage ops f d = (e, f', d') \<Longrightarrow> page_id f' = page_id f"
  by (auto simp: readPage_def Let_def split: prod.splits bool.splits option.splits)

lemma get_data_page_id: "get_data ops f d = (e, f', d') \<Longrightarrow> page_id f' = page_id f"
  by (auto simp: get_data_def dest: readPage_page_id split: if_splits)

lemma frame_get_data_inv: "pool_inv s \<Longrightarrow> frame_get_data ops a s = Some (e, s') \<Longrightarrow> pool_inv s'"
  by (auto simp: frame_get_data_def split: option.splits prod.splits
           dest!: get_data_page_id intro!: pool_inv_heap_update)

lemma caller_write_inv: "pool_inv s \<Longrightarrow> caller_write a bytes s = Some s' \<Longrightarrow> pool_inv s'"
  by (auto simp: caller_write_def split: option.splits buffer.splits
           intro!: pool_inv_heap_update)

lemma reachable_inv: "reachable ops psize pcount d0 s \<Longrightarrow> pool_inv s"
proof (induction rule: reachable.induct)
  case constructed
  show ?case by (simp add: pool_inv_def new_BufferManager_def)
qed (auto intro: fix_page_inv resume_fix_page_inv unfix_page_inv frame_get_data_inv caller_write_inv)

lemma evict_page_count: "evict ops c f s = (r, s') \<Longrightarrow> page_count s' = page_count s"
  by (auto dest!: evict_result)

lemma make_room_page_count: "make_room ops s = (r, s') \<Longrightarrow> page_count s' = page_count s"
  by (auto simp: make_room_def dest: evict_page_count split: if_splits scan_result.splits)

lemma allocate_page_count: "page_count (snd (allocate new pid exclusive s)) = page_count s"
  by (auto simp: allocate_def Let_def split: prod.splits option.splits)

lemma hit_path_page_count: "page_count (snd (hit_path a exclusive s)) = page_count s"
  by (auto simp: hit_path_def Let_def split: prod.splits option.splits)

lemma fix_page_page_count: "page_count (snd (fix_page ops new pid exclusive s)) = page_count s"
proof (cases "make_room ops (s\<lparr>mtx := True\<rparr>)")
  case (Pair r s1)
  from make_room_page_count [OF this] have "page_count s1 = page_count s" by simp
  with Pair show ?thesis
    by (auto simp: fix_page_def Let_def hit_path_page_count allocate_page_count
          split: option.splits)
qed

lemma reachable_page_count: "reachable ops psize pcount d0 s \<Longrightarrow> page_count s = pcount"
proof (induction rule: reachable.induct)
  case constructed
  show ?case by (simp add: new_BufferManager_def)
next
  case (fixed s new pid exclusive)
  then show ?case by (simp add: fix_page_page_count)
next
  case (resumed s a exclusive s')
  then show ?case by (auto simp: resume_fix_page_def split: option.splits prod.splits)
next
  case (unfixed s a is_dirty s')
  then show ?case by (auto simp: unfix_page_def Let_def split: option.splits)
next
  case (read s a e s')
  then show ?case by (auto simp: frame_get_data_def split: option.splits prod.splits)
next
  case (written s a bytes s')
  then show ?case by (auto simp: caller_write_def split: option.splits buffer.splits)
qed

text \<open>What a call of \<open>fix_page\<close> does to the size of the frame table.\<close>

lemma fix_page_table:
  assumes inv: "pool_inv s" and fresh: "fresh_at_allocation ops s new"
    and miss: "map_of (bufferFrameMap s) pid = None"
    and added: "map_of (bufferFrameMap (snd (fix_page ops new pid exclusive s))) pid \<noteq> None"
  shows "(isFrameAvailable s \<and>
            bufferFrameMap (snd (fix_page ops new pid exclusive s)) = bufferFrameMap s @ [(pid, new)])
         \<or> (\<not> isFrameAvailable s \<and>
            (\<exists>c f. find_candidate (fifo s) (heap s) = Candidate c f \<and>
               bufferFrameMap (snd (fix_page ops new pid exclusive s))
                 = erase (page_id f) (bufferFrameMap s) @ [(pid, new)]
               \<and> Suc (length (erase (page_id f) (bufferFrameMap s))) = length (bufferFrameMap s)))"
proof -
  let ?s0 = "s\<lparr>mtx := True\<rparr>"
  from added miss have free: "\<not> mtx s" by (auto simp: fix_page_def)
  have inv0: "pool_inv ?s0" using inv by simp
  obtain r s1 where mr: "make_room ops ?s0 = (r, s1)" by (cases "make_room ops ?s0")
  note m = make_room_inv [OF inv0 mr]
  have r: "r = None"
  proof (cases r)
    case (Some out)
    with miss free mr have "snd (fix_page ops new pid exclusive s) = s1" by (simp add: fix_page_def)
    with m miss added show ?thesis by simp
  qed
  from m miss have miss1: "map_of (bufferFrameMap s1) pid = None" by simp
  from miss free mr r have fp: "fix_page ops new pid exclusive s = allocate new pid exclusive s1"
    by (simp add: fix_page_def)
  from allocate_result [OF miss1, of new exclusive] fp
  have tab: "bufferFrameMap (snd (fix_page ops new pid exclusive s)) = bufferFrameMap s1 @ [(pid, new)]"
    by auto
  show ?thesis
  proof (cases "isFrameAvailable s")
    case True
    with mr have "s1 = ?s0" by (simp add: make_room_def isFrameAvailable_def)
    with tab True show ?thesis by simp
  next
    case False
    then have na: "\<not> isFrameAvailable ?s0" by (simp add: isFrameAvailable_def)
    from mr r na obtain c f where cand: "find_candidate (fifo s) (heap s) = Candidate c f"
      and ev: "evict ops c f ?s0 = (None, s1)"
      by (auto simp: make_room_def split: scan_result.splits)
    from find_candidate_Candidate [OF cand] obtain f0 where
      c: "c \<in> set (fifo s)" and h: "heap s c = Some f0" and f: "page_id f = page_id f0"
      by auto
    from evict_result [OF ev] have "bufferFrameMap s1 = erase (page_id f) (bufferFrameMap s)"
      by auto
    moreover from pool_inv_remove [OF inv c h] f
    have "Suc (length (erase (page_id f) (bufferFrameMap s))) = length (bufferFrameMap s)"
      by simp
    ultimately show ?thesis using False cand tab by simp
  qed
qed

section \<open>An example run\<close>

lemma segment_of_small [simp]: "get_segment_id 1 = 0" "get_segment_id 2 = 0"
  by (simp_all add: get_segment_id_def drop_bit_eq_div)

lemmas run_defs = fix_page_def make_room_def isFrameAvailable_def allocate_def insert_table_def
  hit_path_def evict_def flush_def writePage_def open_or_create_def erase_def
  lockWrite_def lockRead_def unfix_page_def setDirty_def
  new_BufferManager_def example_pool_def example_frame_def new_BufferFrame_def
  recording_ops_def unreadable_ops_def Let_def

lemma example_empty: "new_BufferManager 1024 1 [] = example_pool [] [] [] (\<lambda>a. None) []"
  by (simp add: run_defs)

lemma example_fix_1:
  "fix_page recording_ops 0 1 True (example_pool [] [] [] (\<lambda>a. None) [])
     = (Returned 0, example_pool [(1, 0)] [0] [] [0 \<mapsto> example_frame 1 empty WriteLocked] [])"
  by (simp add: run_defs)

lemma example_unfix_1:
  "unfix_page 0 True (example_pool [(1, 0)] [0] [] [0 \<mapsto> example_frame 1 empty WriteLocked] [])
     = Some (example_pool [(1, 0)] [0] [] [0 \<mapsto> example_frame 1 dirty Unlocked] [])"
  by (simp add: run_defs)

lemma example_refix_1:
  "fix_page recording_ops new 1 False
       (example_pool [(1, 0)] [0] [] [0 \<mapsto> example_frame 1 dirty Unlocked] [])
     = (Returned 0, example_pool [(1, 0)] [] [0] [0 \<mapsto> example_frame 1 dirty (ReadLocked 0)] [])"
  by (simp add: run_defs)

lemma example_unfix_again:
  "unfix_page 0 False (example_pool [(1, 0)] [] [0] [0 \<mapsto> example_frame 1 dirty (ReadLocked 0)] [])
     = Some (example_pool [(1, 0)] [] [0] [0 \<mapsto> example_frame 1 dirty Unlocked] [])"
  by (simp add: run_defs)

lemma example_fix_2_full:
  "fix_page recording_ops new 2 exclusive
       (example_pool [(1, 0)] [] [0] [0 \<mapsto> example_frame 1 dirty Unlocked] [])
     = (Threw buffer_full_error,
        example_pool [(1, 0)] [] [0] [0 \<mapsto> example_frame 1 dirty Unlocked] [])"
  by (simp add: run_defs)

lemma example_fix_2_evicts:
  "fix_page recording_ops 0 2 False
       (example_pool [(1, 0)] [0] [] [0 \<mapsto> example_frame 1 dirty Unlocked] [])
     = (Returned 0,
        example_pool [(2, 0)] [0] [] [0 \<mapsto> example_frame 2 empty (ReadLocked 0)]
          [(''0'', 1024, Nullptr)])"
  by (simp add: run_defs to_string.simps digit_char_def)

lemma example_reachable_1:
  "reachable recording_ops 1024 1 []
     (example_pool [(1, 0)] [0] [] [0 \<mapsto> example_frame 1 empty WriteLocked] [])"
proof -
  have "fresh_at_allocation recording_ops (new_BufferManager 1024 1 []) 0"
    by (simp add: fresh_at_allocation_def run_defs)
  from reachable.fixed [OF reachable.constructed this, of 1 True]
  show ?thesis by (simp add: example_empty example_fix_1)
qed

lemma example_reachable_2:
  "reachable recording_ops 1024 1 []
     (example_pool [(1, 0)] [0] [] [0 \<mapsto> example_frame 1 dirty Unlocked] [])"
  by (rule reachable.unfixed [OF example_reachable_1 example_unfix_1])

lemma example_reachable_3:
  "reachable recording_ops 1024 1 []
     (example_pool [(1, 0)] [] [0] [0 \<mapsto> example_frame 1 dirty (ReadLocked 0)] [])"
proof -
  have "fresh_at_allocation recording_ops
          (example_pool [(1, 0)] [0] [] [0 \<mapsto> example_frame 1 dirty Unlocked] []) 1"
    by (simp add: fresh_at_allocation_def run_defs to_string.simps digit_char_def)
  from reachable.fixed [OF example_reachable_2 this, of 1 False]
  show ?thesis by (simp add: example_refix_1)
qed

lemma example_reachable_4:
  "reachable recording_ops 1024 1 []
     (example_pool [(1, 0)] [] [0] [0 \<mapsto> example_frame 1 dirty Unlocked] [])"
  by (rule reachable.unfixed [OF example_reachable_3 example_unfix_again])

section \<open>The size of the frame table\<close>

text \<open>
  C2. In every state a pool can reach from its construction, the frame table holds at most
  \<open>page_count\<close> entries; and a call of \<open>fix_page\<close> that adds the requested page to the
  table either found the table below \<open>page_count\<close> and appended the entry, or found it
  full, took a victim from the FIFO queue, erased the victim's entry (one entry less) and
  then appended the new one.
\<close>

theorem C2_frame_count_bounded:
  assumes "reachable ops psize pcount d0 s"
  shows "length (bufferFrameMap s) \<le> unat pcount
    \<and> (fresh_at_allocation ops s new \<longrightarrow>
         length (bufferFrameMap (snd (fix_page ops new pid exclusive s))) \<le> unat pcount)
    \<and> (fresh_at_allocation ops s new \<longrightarrow> map_of (bufferFrameMap s) pid = None \<longrightarrow>
       map_of (bufferFrameMap (snd (fix_page ops new pid exclusive s))) pid \<noteq> None \<longrightarrow>
         (length (bufferFrameMap s) < unat pcount \<and>
            bufferFrameMap (snd (fix_page ops new pid exclusive s))
              = bufferFrameMap s @ [(pid, new)])
         \<or> (\<not> length (bufferFrameMap s) < unat pcount \<and>
            (\<exists>c f. find_candidate (fifo s) (heap s) = Candidate c f \<and>
               bufferFrameMap (snd (fix_page ops new pid exclusive s))
                 = erase (page_id f) (bufferFrameMap s) @ [(pid, new)]
               \<and> Suc (length (erase (page_id f) (bufferFrameMap s)))
                   = length (bufferFrameMap s))))"
proof -
  from assms have inv: "pool_inv s" by (rule reachable_inv)
  from assms have count: "page_count s = pcount" by (rule reachable_page_count)
  from inv count have bound: "length (bufferFrameMap s) \<le> unat pcount"
    by (simp add: pool_inv_def)
  have after: "length (bufferFrameMap (snd (fix_page ops new pid exclusive s))) \<le> unat pcount"
    if "fresh_at_allocation ops s new"
    using fix_page_inv [OF inv that, of pid exclusive] count
    by (simp add: pool_inv_def fix_page_page_count)
  show ?thesis
    using bound after fix_page_table [OF inv, of ops new pid exclusive] count
    by (simp add: isFrameAvailable_def)
qed

theorem C2_frame_count_bounded_witness:
  "length (bufferFrameMap
      (example_pool [(1, 0)] [0] [] [0 \<mapsto> example_frame 1 dirty Unlocked] [])) \<le> unat (1 :: u64)
   \<and> find_candidate [0] [0 \<mapsto> example_frame 1 dirty Unlocked]
       = Candidate 0 (example_frame 1 dirty WriteLocked)
   \<and> bufferFrameMap (snd (fix_page recording_ops 0 2 False
        (example_pool [(1, 0)] [0] [] [0 \<mapsto> example_frame 1 dirty Unlocked] [])))
       = erase 1 [(1, 0)] @ [(2, 0)]
   \<and> length (bufferFrameMap (snd (fix_page recording_ops 0 2 False
        (example_pool [(1, 0)] [0] [] [0 \<mapsto> example_frame 1 dirty Unlocked] [])))) \<le> unat (1 :: u64)"
proof -
  have fresh: "fresh_at_allocation recording_ops
          (example_pool [(1, 0)] [0] [] [0 \<mapsto> example_frame 1 dirty Unlocked] []) 0"
    by (simp add: fresh_at_allocation_def run_defs to_string.simps digit_char_def)
  have miss: "map_of (bufferFrameMap
      (example_pool [(1, 0)] [0] [] [0 \<mapsto> example_frame 1 dirty Unlocked] [])) 2 = None"
    by (simp add: example_pool_def)
  have added: "map_of (bufferFrameMap (snd (fix_page recording_ops 0 2 False
        (example_pool [(1, 0)] [0] [] [0 \<mapsto> example_frame 1 dirty Unlocked] [])))) 2 \<noteq> None"
    by (simp add: example_fix_2_evicts) (simp add: example_pool_def)
  have cand: "find_candidate [0] [0 \<mapsto> example_frame 1 dirty Unlocked]
       = Candidate 0 (example_frame 1 dirty WriteLocked)"
    by (simp add: lockWrite_def example_frame_def)
  from C2_frame_count_bounded [OF example_reachable_2, of 0 2 False] fresh miss added cand
  show ?thesis
    by (simp add: example_fix_2_evicts) (simp add: example_pool_def erase_def)
qed

section \<open>Queue membership\<close>

text \<open>
  C5. In every state a pool can reach, after any call of \<open>fix_page\<close> or \<open>unfix_page\<close>,
  each frame of the frame table is in exactly one of the FIFO queue and the LRU queue, once;
  the queues hold no other frame; and each page id has at most one entry in the table.
\<close>

theorem C5_one_queue_per_frame:
  assumes "reachable ops psize pcount d0 s"
  shows "(\<forall>(p, a) \<in> set (bufferFrameMap s). (a \<in> set (fifo s)) \<noteq> (a \<in> set (lru s)))
    \<and> distinct (fifo s @ lru s)
    \<and> set (fifo s) \<union> set (lru s) \<subseteq> snd ` set (bufferFrameMap s)
    \<and> distinct (map fst (bufferFrameMap s))
    \<and> (\<forall>p a b. (p, a) \<in> set (bufferFrameMap s) \<longrightarrow> (p, b) \<in> set (bufferFrameMap s) \<longrightarrow> a = b)"
proof -
  from assms have inv: "pool_inv s" by (rule reachable_inv)
  then have queues: "set (fifo s) \<union> set (lru s) = snd ` set (bufferFrameMap s)"
    and once: "distinct (fifo s @ lru s)"
    and keys: "distinct (map fst (bufferFrameMap s))"
    by (simp_all add: pool_inv_def)
  have one: "(a \<in> set (fifo s)) \<noteq> (a \<in> set (lru s))" if "(p, a) \<in> set (bufferFrameMap s)" for p a
  proof -
    from that have "a \<in> snd ` set (bufferFrameMap s)" by force
    with queues have "a \<in> set (fifo s) \<or> a \<in> set (lru s)" by blast
    moreover from once have "\<not> (a \<in> set (fifo s) \<and> a \<in> set (lru s))" by auto
    ultimately show ?thesis by blast
  qed
  have single: "a = b" if "(p, a) \<in> set (bufferFrameMap s)" "(p, b) \<in> set (bufferFrameMap s)" for p a b
    using that keys by (meson eq_key_imp_eq_value)
  show ?thesis
    using one once queues keys single by blast
qed

theorem C5_one_queue_per_frame_witness:
  "(0 \<in> set (fifo (example_pool [(1, 0)] [] [0] [0 \<mapsto> example_frame 1 dirty Unlocked] [])))
     \<noteq> (0 \<in> set (lru (example_pool [(1, 0)] [] [0] [0 \<mapsto> example_frame 1 dirty Unlocked] [])))
   \<and> distinct (map fst (bufferFrameMap
       (example_pool [(1, 0)] [] [0] [0 \<mapsto> example_frame 1 dirty Unlocked] [])))"
  using C5_one_queue_per_frame [OF example_reachable_4]
  by (simp add: example_pool_def)

section \<open>The hit path and the queues\<close>

lemma hit_path_queues:
  "lru (snd (hit_path a exclusive s)) = removeAll a (lru s) @ [a]
   \<and> fifo (snd (hit_path a exclusive s)) = removeAll a (fifo s)
   \<and> bufferFrameMap (snd (hit_path a exclusive s)) = bufferFrameMap s"
  by (auto simp: hit_path_def Let_def split: option.splits prod.splits)

lemma fix_page_hit:
  "\<not> mtx s \<Longrightarrow> map_of (bufferFrameMap s) pid = Some a \<Longrightarrow>
     fix_page ops new pid exclusive s = hit_path a exclusive (s\<lparr>mtx := True\<rparr>)"
  by (simp add: fix_page_def)

lemma fix_page_lru_stays:
  assumes inv: "pool_inv s" and fresh: "fresh_at_allocation ops s new"
  shows "set (lru s) \<subseteq> set (lru (snd (fix_page ops new pid exclusive s)))
         \<and> set (lru s) \<inter> set (fifo (snd (fix_page ops new pid exclusive s))) = {}"
proof -
  from inv have disj: "set (lru s) \<inter> set (fifo s) = {}"
    by (auto simp: pool_inv_def)
  show ?thesis
  proof (cases "mtx s")
    case True
    with disj show ?thesis by (simp add: fix_page_def)
  next
    case False
    let ?s0 = "s\<lparr>mtx := True\<rparr>"
    have inv0: "pool_inv ?s0" using inv by simp
    show ?thesis
    proof (cases "map_of (bufferFrameMap s) pid")
      case (Some a)
      from fix_page_hit [OF False Some] hit_path_queues [of a exclusive ?s0] disj
      show ?thesis by auto
    next
      case None
      obtain r s1 where mr: "make_room ops ?s0 = (r, s1)"
        by (cases "make_room ops ?s0")
      from make_room_inv [OF inv0 mr]
      have live: "set (lru s) \<subseteq> dom (heap s1)" and l1: "lru s1 = lru s"
        and f1: "set (fifo s1) \<subseteq> set (fifo s)"
        and miss1: "map_of (bufferFrameMap s1) pid = None"
        using None by simp_all
      show ?thesis
      proof (cases r)
        case (Some out)
        with None False mr have "snd (fix_page ops new pid exclusive s) = s1"
          by (simp add: fix_page_def)
        with l1 f1 disj show ?thesis by auto
      next
        case r: None
        from fresh mr have "heap s1 new = None" by (simp add: fresh_at_allocation_def)
        with live have "new \<notin> set (lru s)" by auto
        moreover from None False mr r
        have "fix_page ops new pid exclusive s = allocate new pid exclusive s1"
          by (simp add: fix_page_def)
        moreover note allocate_result [OF miss1, of new exclusive]
        ultimately show ?thesis using l1 f1 disj by auto
      qed
    qed
  qed
qed

text \<open>
  C4. A call of \<open>fix_page\<close> that takes the mutex and finds the page in the frame table
  removes the frame from both queues and appends it to the LRU queue: a frame of the FIFO
  queue leaves it and becomes the tail of the LRU queue, whose other frames keep their
  places; a frame of the LRU queue becomes its tail and the FIFO queue is as before. No
  operation moves a frame of the LRU queue to the FIFO queue: after \<open>fix_page\<close> every
  frame of the LRU queue is still in it and not in the FIFO queue, and the other operations
  do not touch the queues.
\<close>

theorem C4_hit_moves_to_lru_tail:
  assumes "reachable ops psize pcount d0 s"
  shows "(\<not> mtx s \<and> map_of (bufferFrameMap s) pid = Some a \<longrightarrow>
            lru (snd (fix_page ops new pid exclusive s)) = removeAll a (lru s) @ [a]
          \<and> fifo (snd (fix_page ops new pid exclusive s)) = removeAll a (fifo s)
          \<and> a \<notin> set (fifo (snd (fix_page ops new pid exclusive s)))
          \<and> (a \<in> set (fifo s) \<longrightarrow> lru (snd (fix_page ops new pid exclusive s)) = lru s @ [a])
          \<and> (a \<in> set (lru s) \<longrightarrow> fifo (snd (fix_page ops new pid exclusive s)) = fifo s))
    \<and> (fresh_at_allocation ops s new \<longrightarrow>
            set (lru s) \<subseteq> set (lru (snd (fix_page ops new pid exclusive s)))
          \<and> set (lru s) \<inter> set (fifo (snd (fix_page ops new pid exclusive s))) = {})
    \<and> (unfix_page b is_dirty s = Some s' \<longrightarrow> fifo s' = fifo s \<and> lru s' = lru s)
    \<and> (resume_fix_page b exclusive s = Some s' \<longrightarrow> fifo s' = fifo s \<and> lru s' = lru s)
    \<and> (frame_get_data ops b s = Some (e, s') \<longrightarrow> fifo s' = fifo s \<and> lru s' = lru s)
    \<and> (caller_write b bytes s = Some s' \<longrightarrow> fifo s' = fifo s \<and> lru s' = lru s)"
proof -
  from assms have inv: "pool_inv s" by (rule reachable_inv)
  then have once: "distinct (fifo s @ lru s)" by (simp add: pool_inv_def)
  have hit: "lru (snd (fix_page ops new pid exclusive s)) = removeAll a (lru s) @ [a]
          \<and> fifo (snd (fix_page ops new pid exclusive s)) = removeAll a (fifo s)
          \<and> a \<notin> set (fifo (snd (fix_page ops new pid exclusive s)))
          \<and> (a \<in> set (fifo s) \<longrightarrow> lru (snd (fix_page ops new pid exclusive s)) = lru s @ [a])
          \<and> (a \<in> set (lru s) \<longrightarrow> fifo (snd (fix_page ops new pid exclusive s)) = fifo s)"
    if "\<not> mtx s" "map_of (bufferFrameMap s) pid = Some a"
  proof -
    have "a \<in> set (fifo s) \<Longrightarrow> removeAll a (lru s) = lru s"
      using once by (intro removeAll_id) auto
    moreover have "a \<in> set (lru s) \<Longrightarrow> removeAll a (fifo s) = fifo s"
      using once by (intro removeAll_id) auto
    ultimately show ?thesis
      using fix_page_hit [OF that, of ops new exclusive]
        hit_path_queues [of a exclusive "s\<lparr>mtx := True\<rparr>"]
      by simp
  qed
  have u: "fifo s' = fifo s \<and> lru s' = lru s" if "unfix_page b is_dirty s = Some s'"
    using that by (auto simp: unfix_page_def Let_def split: option.splits)
  have r: "fifo s' = fifo s \<and> lru s' = lru s" if "resume_fix_page b exclusive s = Some s'"
    using that by (auto simp: resume_fix_page_def split: option.splits prod.splits)
  have g: "fifo s' = fifo s \<and> lru s' = lru s" if "frame_get_data ops b s = Some (e, s')"
    using that by (auto simp: frame_get_data_def split: option.splits prod.splits)
  have w: "fifo s' = fifo s \<and> lru s' = lru s" if "caller_write b bytes s = Some s'"
    using that by (auto simp: caller_write_def split: option.splits buffer.splits)
  from hit fix_page_lru_stays [OF inv, of ops new pid exclusive] u r g w
  show ?thesis by blast
qed

theorem C4_hit_moves_to_lru_tail_witness:
  "fifo (snd (fix_page recording_ops 1 1 False
      (example_pool [(1, 0)] [0] [] [0 \<mapsto> example_frame 1 dirty Unlocked] []))) = []
   \<and> lru (snd (fix_page recording_ops 1 1 False
      (example_pool [(1, 0)] [0] [] [0 \<mapsto> example_frame 1 dirty Unlocked] []))) = [0]
   \<and> fifo (snd (fix_page recording_ops 1 1 False
      (example_pool [(1, 0)] [] [0] [0 \<mapsto> example_frame 1 dirty Unlocked] []))) = []
   \<and> lru (snd (fix_page recording_ops 1 1 False
      (example_pool [(1, 0)] [] [0] [0 \<mapsto> example_frame 1 dirty Unlocked] []))) = [0]
   \<and> fresh_at_allocation recording_ops
        (example_pool [(1, 0)] [] [0] [0 \<mapsto> example_frame 1 dirty Unlocked] []) 1
   \<and> 0 \<in> set (lru (snd (fix_page recording_ops 1 2 False
        (example_pool [(1, 0)] [] [0] [0 \<mapsto> example_frame 1 dirty Unlocked] []))))
   \<and> 0 \<notin> set (fifo (snd (fix_page recording_ops 1 2 False
        (example_pool [(1, 0)] [] [0] [0 \<mapsto> example_frame 1 dirty Unlocked] []))))
   \<and> unfix_page 0 False
        (example_pool [(1, 0)] [] [0] [0 \<mapsto> example_frame 1 dirty (ReadLocked 0)] [])
      = Some (example_pool [(1, 0)] [] [0] [0 \<mapsto> example_frame 1 dirty Unlocked] [])
   \<and> lru (example_pool [(1, 0)] [] [0] [0 \<mapsto> example_frame 1 dirty Unlocked] [])
      = lru (example_pool [(1, 0)] [] [0] [0 \<mapsto> example_frame 1 dirty (ReadLocked 0)] [])"
proof -
  have fresh: "fresh_at_allocation recording_ops
        (example_pool [(1, 0)] [] [0] [0 \<mapsto> example_frame 1 dirty Unlocked] []) 1"
    by (simp add: fresh_at_allocation_def run_defs)
  have listed: "0 \<in> set (lru (example_pool [(1, 0)] [] [0]
                  [0 \<mapsto> example_frame 1 dirty Unlocked] []))"
    by (simp add: example_pool_def)
  from C4_hit_moves_to_lru_tail [OF example_reachable_2,
          where pid = 1 and a = 0 and new = 1 and exclusive = False]
  have first: "fifo (snd (fix_page recording_ops 1 1 False
      (example_pool [(1, 0)] [0] [] [0 \<mapsto> example_frame 1 dirty Unlocked] []))) = []
   \<and> lru (snd (fix_page recording_ops 1 1 False
      (example_pool [(1, 0)] [0] [] [0 \<mapsto> example_frame 1 dirty Unlocked] []))) = [0]"
    by (simp add: example_pool_def)
  from C4_hit_moves_to_lru_tail [OF example_reachable_4,
          where pid = 1 and a = 0 and new = 1 and exclusive = False]
  have again: "fifo (snd (fix_page recording_ops 1 1 False
      (example_pool [(1, 0)] [] [0] [0 \<mapsto> example_frame 1 dirty Unlocked] []))) = []
   \<and> lru (snd (fix_page recording_ops 1 1 False
      (example_pool [(1, 0)] [] [0] [0 \<mapsto> example_frame 1 dirty Unlocked] []))) = [0]"
    by (simp add: example_pool_def)
  from C4_hit_moves_to_lru_tail [OF example_reachable_4,
          where pid = 2 and new = 1 and exclusive = False] fresh listed
  have stays: "0 \<in> set (lru (snd (fix_page recording_ops 1 2 False
        (example_pool [(1, 0)] [] [0] [0 \<mapsto> example_frame 1 dirty Unlocked] []))))
   \<and> 0 \<notin> set (fifo (snd (fix_page recording_ops 1 2 False
        (example_pool [(1, 0)] [] [0] [0 \<mapsto> example_frame 1 dirty Unlocked] []))))"
    by blast
  from C4_hit_moves_to_lru_tail [OF example_reachable_3,
          where b = 0 and is_dirty = False
            and s' = "example_pool [(1, 0)] [] [0] [0 \<mapsto> example_frame 1 dirty Unlocked] []"]
       example_unfix_again
  have released: "lru (example_pool [(1, 0)] [] [0] [0 \<mapsto> example_frame 1 dirty Unlocked] [])
      = lru (example_pool [(1, 0)] [] [0] [0 \<mapsto> example_frame 1 dirty (ReadLocked 0)] [])"
    by blast
  from first again fresh stays example_unfix_again released show ?thesis by blast
qed

section \<open>A pool without capacity\<close>

lemma reachable_zero:
  "reachable ops psize 0 d0 s \<Longrightarrow> s = new_BufferManager psize 0 d0"
proof (induction rule: reachable.induct)
  case constructed
  show ?case by simp
next
  case (fixed s new pid exclusive)
  then show ?case
    by (simp add: fix_page_def make_room_def isFrameAvailable_def new_BufferManager_def)
next
  case (resumed s a exclusive s')
  then show ?case by (simp add: resume_fix_page_def new_BufferManager_def)
next
  case (unfixed s a is_dirty s')
  then show ?case by (simp add: unfix_page_def new_BufferManager_def)
next
  case (read s a e s')
  then show ?case by (simp add: frame_get_data_def new_BufferManager_def)
next
  case (written s a bytes s')
  then show ?case by (simp add: caller_write_def new_BufferManager_def)
qed

text \<open>
  C10. A pool constructed with \<open>page_count = 0\<close> never leaves its initial state, and
  every call of \<open>fix_page\<close> on it, for every page id and in either mode, throws
  \<open>buffer_full_error\<close>: the table is empty, \<open>0 < 0\<close> fails, and the scan of the empty
  FIFO queue finds no candidate.
\<close>

theorem C10_zero_capacity:
  assumes "reachable ops psize 0 d0 s"
  shows "fix_page ops new pid exclusive s = (Threw buffer_full_error, s)
    \<and> bufferFrameMap s = [] \<and> \<not> isFrameAvailable s
    \<and> find_candidate (fifo s) (heap s) = No_candidate"
  using reachable_zero [OF assms]
  by (simp add: fix_page_def make_room_def isFrameAvailable_def new_BufferManager_def)

theorem C10_zero_capacity_witness:
  "fix_page recording_ops 0 7 True (new_BufferManager 1024 0 [])
     = (Threw buffer_full_error, new_BufferManager 1024 0 [])
   \<and> fix_page recording_ops 0 7 False (new_BufferManager 1024 0 [])
     = (Threw buffer_full_error, new_BufferManager 1024 0 [])"
  using C10_zero_capacity [OF reachable.constructed,
          where ops = recording_ops and psize = 1024 and ?d0.0 = "[]" and new = 0 and pid = 7
            and exclusive = True]
        C10_zero_capacity [OF reachable.constructed,
          where ops = recording_ops and psize = 1024 and ?d0.0 = "[]" and new = 0 and pid = 7
            and exclusive = False]
  by simp

section \<open>The victim scan and the LRU queue\<close>

lemma fix_page_empty_fifo:
  "\<not> mtx s \<Longrightarrow> map_of (bufferFrameMap s) pid = None \<Longrightarrow> \<not> isFrameAvailable s \<Longrightarrow>
     fifo s = [] \<Longrightarrow> fix_page ops new pid exclusive s = (Threw buffer_full_error, s)"
  by (simp add: fix_page_buffer_full)

text \<open>
  C1 (the code departs from it). The victim scan of \<open>fix_page\<close> walks the FIFO queue only.
  In a pool of one page, fix page 1, unfix it, fix it again (the frame moves to the LRU
  queue) and unfix it: the only frame is in the LRU queue and its latch is free, so a
  try-lock for writing succeeds on it; yet \<open>fix_page\<close> for page 2 throws
  \<open>buffer_full_error\<close>, in either mode.
\<close>

theorem C1_unlatched_lru_frame_not_chosen:
  "reachable recording_ops 1024 1 []
     (example_pool [(1, 0)] [] [0] [0 \<mapsto> example_frame 1 dirty Unlocked] [])
   \<and> lockWrite False (frameLock (example_frame 1 dirty Unlocked)) = Some (True, WriteLocked)
   \<and> fix_page recording_ops 1 2 False
        (example_pool [(1, 0)] [] [0] [0 \<mapsto> example_frame 1 dirty Unlocked] [])
      = (Threw buffer_full_error,
         example_pool [(1, 0)] [] [0] [0 \<mapsto> example_frame 1 dirty Unlocked] [])
   \<and> fix_page recording_ops 1 2 True
        (example_pool [(1, 0)] [] [0] [0 \<mapsto> example_frame 1 dirty Unlocked] [])
      = (Threw buffer_full_error,
         example_pool [(1, 0)] [] [0] [0 \<mapsto> example_frame 1 dirty Unlocked] [])"
  by (simp add: example_reachable_4 example_fix_2_full)
     (simp add: lockWrite_def example_frame_def)

section \<open>Read failures\<close>

lemma writePage_read_block [simp]: "writePage (ops\<lparr>read_block := r\<rparr>) f d = writePage ops f d"
  by (simp add: writePage_def open_or_create_def Let_def
        cong: option.case_cong prod.case_cong bool.case_cong)

lemma flush_read_block [simp]: "flush (ops\<lparr>read_block := r\<rparr>) f d = flush ops f d"
  by (simp add: flush_def)

lemma evict_read_block [simp]: "evict (ops\<lparr>read_block := r\<rparr>) c f s = evict ops c f s"
  by (simp add: evict_def Let_def cong: option.case_cong prod.case_cong)

lemma make_room_read_block [simp]: "make_room (ops\<lparr>read_block := r\<rparr>) s = make_room ops s"
  by (simp add: make_room_def cong: scan_result.case_cong)

lemma fix_page_read_block:
  "fix_page (ops\<lparr>read_block := r\<rparr>) new pid exclusive s = fix_page ops new pid exclusive s"
  by (simp add: fix_page_def Let_def cong: option.case_cong)

lemma readPage_exn:
  "readPage ops f d = (Some e, f', d') \<Longrightarrow> e = io_failure \<and> f' = f\<lparr>data := Uninitialised\<rparr>"
  by (auto simp: readPage_def Let_def split: prod.splits bool.splits option.splits)

lemma get_data_exn:
  "get_data ops f d = (Some e, f', d') \<Longrightarrow>
     e = io_failure \<and> state f = empty \<and> f' = f\<lparr>data := Uninitialised\<rparr>"
  by (auto simp: get_data_def dest: readPage_exn split: if_splits)

lemma make_room_keeps_miss:
  assumes "make_room ops s = (r, s1)" "map_of (bufferFrameMap s) pid = None"
  shows "map_of (bufferFrameMap s1) pid = None"
proof -
  have "set (bufferFrameMap s1) \<subseteq> set (bufferFrameMap s)"
    using assms(1)
    by (auto simp: make_room_def erase_set dest!: evict_result
          split: if_splits scan_result.splits)
  with assms(2) show ?thesis by (auto simp: map_of_eq_None_iff)
qed

lemma fix_page_creates_empty:
  assumes miss: "map_of (bufferFrameMap s) pid = None"
    and ret: "fix_page ops new pid exclusive s = (Returned b, s')"
  shows "b = new \<and> (\<exists>l. heap s' new =
           Some ((new_BufferFrame pid (bm_page_size s) (get_segment_id pid))\<lparr>frameLock := l\<rparr>))"
proof -
  from ret have free: "\<not> mtx s" by (auto simp: fix_page_def)
  let ?s0 = "s\<lparr>mtx := True\<rparr>"
  obtain r s1 where mr: "make_room ops ?s0 = (r, s1)" by (cases "make_room ops ?s0")
  have ps: "bm_page_size s1 = bm_page_size s"
    using mr by (auto simp: make_room_def dest!: evict_result split: if_splits scan_result.splits)
  from make_room_keeps_miss [OF mr, of pid] miss
  have miss1: "map_of (bufferFrameMap s1) pid = None" by simp
  show ?thesis
  proof (cases r)
    case (Some out)
    with miss free mr ret have "make_room ops ?s0 = (Some (Returned b), s')"
      by (simp add: fix_page_def)
    then have False
      by (auto simp: make_room_def dest!: evict_result split: if_splits scan_result.splits)
    then show ?thesis ..
  next
    case None
    with miss free mr ret have "allocate new pid exclusive s1 = (Returned b, s')"
      by (simp add: fix_page_def)
    with allocate_result [OF miss1, of new exclusive] ps show ?thesis by auto
  qed
qed

lemma get_data_materialises:
  assumes "state f = empty"
    and "open_or_create ops (to_string (unat (segment_id f))) READ d = (True, d1)"
    and "read_block ops (to_string (unat (segment_id f))) (pageOffsetInFile f) (page_size f) d1
           = Some bytes"
  shows "get_data ops f d = (None, f\<lparr>data := Contents bytes, state := clean\<rparr>, d1)"
  using assms by (simp add: get_data_def readPage_def Let_def)

lemma get_data_read_fails:
  assumes "state f = empty"
    and "open_or_create ops (to_string (unat (segment_id f))) READ d = (opened, d1)"
    and "opened \<longrightarrow>
           read_block ops (to_string (unat (segment_id f))) (pageOffsetInFile f) (page_size f) d1
             = None"
  shows "\<exists>f'. get_data ops f d = (Some io_failure, f', d1) \<and> state f' = empty
           \<and> page_id f' = page_id f \<and> frameLock f' = frameLock f"
  using assms by (cases opened) (simp_all add: get_data_def readPage_def Let_def)

lemma example_read_fails:
  "frame_get_data unreadable_ops 0
        (example_pool [(1, 0)] [0] [] [0 \<mapsto> example_frame 1 empty WriteLocked] [])
     = Some (Some io_failure,
        example_pool [(1, 0)] [0] []
          [0 \<mapsto> (example_frame 1 empty WriteLocked)\<lparr>data := Uninitialised\<rparr>] [])"
  by (simp add: run_defs frame_get_data_def get_data_def readPage_def)

lemma example_read:
  "frame_get_data recording_ops 0
        (example_pool [(1, 0)] [0] [] [0 \<mapsto> example_frame 1 empty WriteLocked] [])
     = Some (None,
        example_pool [(1, 0)] [0] []
          [0 \<mapsto> (example_frame 1 clean WriteLocked)\<lparr>data := Contents (replicate 1024 0)\<rparr>] [])"
  by (simp add: run_defs frame_get_data_def get_data_def readPage_def)

text \<open>
  C6 (as the code has it). \<open>fix_page\<close> reads nothing from the disk: its result does not
  depend on \<open>read_block\<close>, and the frame it creates on a miss is empty, without data. The
  page is read by \<open>get_data\<close> on an empty frame: when the segment file opens and the read
  goes through, the frame holds the bytes read and is clean; on a frame that is not empty
  \<open>get_data\<close> changes nothing. When the file cannot be opened or the read fails, the
  exception leaves \<open>get_data\<close>, and this is the only way it throws: the frame table and both
  queues are as they were, the frame is still in the heap under the same page id, still
  empty and latched as before, and no other frame changes.
\<close>

theorem C6_read_failure_keeps_frame:
  "fix_page (ops\<lparr>read_block := r\<rparr>) new pid exclusive s = fix_page ops new pid exclusive s
   \<and> (map_of (bufferFrameMap s) pid = None \<longrightarrow>
        fix_page ops new pid exclusive s = (Returned b, s1) \<longrightarrow>
          b = new \<and> map_option page_id (heap s1 new) = Some pid
        \<and> map_option state (heap s1 new) = Some empty
        \<and> map_option data (heap s1 new) = Some Nullptr)
   \<and> (heap s a = Some f \<longrightarrow> state f \<noteq> empty \<longrightarrow> frame_get_data ops a s = Some (None, s))
   \<and> (heap s a = Some f \<longrightarrow> state f = empty \<longrightarrow>
        open_or_create ops (to_string (unat (segment_id f))) READ (disk s) = (True, d1) \<longrightarrow>
        read_block ops (to_string (unat (segment_id f))) (pageOffsetInFile f) (page_size f) d1
          = Some bytes \<longrightarrow>
        frame_get_data ops a s
          = Some (None, s\<lparr>heap := (heap s)(a \<mapsto> f\<lparr>data := Contents bytes, state := clean\<rparr>),
                          disk := d1\<rparr>))
   \<and> (heap s a = Some f \<longrightarrow> state f = empty \<longrightarrow>
        open_or_create ops (to_string (unat (segment_id f))) READ (disk s) = (opened, d1) \<longrightarrow>
        (opened \<longrightarrow>
           read_block ops (to_string (unat (segment_id f))) (pageOffsetInFile f) (page_size f) d1
             = None) \<longrightarrow>
        (\<exists>s'. frame_get_data ops a s = Some (Some io_failure, s')))
   \<and> (frame_get_data ops a s = Some (Some e, s') \<longrightarrow>
        e = io_failure
      \<and> bufferFrameMap s' = bufferFrameMap s \<and> fifo s' = fifo s \<and> lru s' = lru s
      \<and> (\<exists>g g'. heap s a = Some g \<and> state g = empty \<and> heap s' a = Some g'
             \<and> state g' = empty \<and> page_id g' = page_id g \<and> frameLock g' = frameLock g)
      \<and> (\<forall>c. c \<noteq> a \<longrightarrow> heap s' c = heap s c))"
proof -
  have created: "b = new \<and> map_option page_id (heap s1 new) = Some pid
        \<and> map_option state (heap s1 new) = Some empty
        \<and> map_option data (heap s1 new) = Some Nullptr"
    if "map_of (bufferFrameMap s) pid = None" "fix_page ops new pid exclusive s = (Returned b, s1)"
    using fix_page_creates_empty [OF that] by (auto simp: new_BufferFrame_def)
  have idle: "frame_get_data ops a s = Some (None, s)" if "heap s a = Some f" "state f \<noteq> empty"
  proof -
    from that(1) have "(heap s)(a \<mapsto> f) = heap s" by (rule map_upd_triv)
    with that show ?thesis by (simp add: frame_get_data_def get_data_def)
  qed
  have materialised: "frame_get_data ops a s
          = Some (None, s\<lparr>heap := (heap s)(a \<mapsto> f\<lparr>data := Contents bytes, state := clean\<rparr>),
                          disk := d1\<rparr>)"
    if "heap s a = Some f" "state f = empty"
      "open_or_create ops (to_string (unat (segment_id f))) READ (disk s) = (True, d1)"
      "read_block ops (to_string (unat (segment_id f))) (pageOffsetInFile f) (page_size f) d1
          = Some bytes"
    using that(1) get_data_materialises [OF that(2,3,4)] by (simp add: frame_get_data_def)
  have propagated: "\<exists>s'. frame_get_data ops a s = Some (Some io_failure, s')"
    if "heap s a = Some f" "state f = empty"
      "open_or_create ops (to_string (unat (segment_id f))) READ (disk s) = (opened, d1)"
      "opened \<longrightarrow>
           read_block ops (to_string (unat (segment_id f))) (pageOffsetInFile f) (page_size f) d1
             = None"
    using that(1) get_data_read_fails [OF that(2,3,4)] by (auto simp: frame_get_data_def)
  have kept: "e = io_failure
      \<and> bufferFrameMap s' = bufferFrameMap s \<and> fifo s' = fifo s \<and> lru s' = lru s
      \<and> (\<exists>g g'. heap s a = Some g \<and> state g = empty \<and> heap s' a = Some g'
             \<and> state g' = empty \<and> page_id g' = page_id g \<and> frameLock g' = frameLock g)
      \<and> (\<forall>c. c \<noteq> a \<longrightarrow> heap s' c = heap s c)"
    if "frame_get_data ops a s = Some (Some e, s')"
    using that
    by (auto simp: frame_get_data_def split: option.splits prod.splits dest!: get_data_exn)
  from created idle materialised propagated kept show ?thesis
    by (simp only: fix_page_read_block simp_thms) blast
qed

theorem C6_read_failure_keeps_frame_witness:
  "fix_page unreadable_ops 0 1 True (example_pool [] [] [] (\<lambda>a. None) [])
     = fix_page recording_ops 0 1 True (example_pool [] [] [] (\<lambda>a. None) [])
   \<and> map_option state (heap (snd (fix_page recording_ops 0 1 True
         (example_pool [] [] [] (\<lambda>a. None) []))) 0) = Some empty
   \<and> map_option data (heap (snd (fix_page recording_ops 0 1 True
         (example_pool [] [] [] (\<lambda>a. None) []))) 0) = Some Nullptr
   \<and> map_option fst (frame_get_data recording_ops 0
        (example_pool [(1, 0)] [0] [] [0 \<mapsto> example_frame 1 empty WriteLocked] [])) = Some None
   \<and> map_option fst (frame_get_data unreadable_ops 0
        (example_pool [(1, 0)] [0] [] [0 \<mapsto> example_frame 1 empty WriteLocked] []))
       = Some (Some io_failure)
   \<and> bufferFrameMap (snd (the (frame_get_data unreadable_ops 0
        (example_pool [(1, 0)] [0] [] [0 \<mapsto> example_frame 1 empty WriteLocked] []))))
       = [(1, 0)]
   \<and> fifo (snd (the (frame_get_data unreadable_ops 0
        (example_pool [(1, 0)] [0] [] [0 \<mapsto> example_frame 1 empty WriteLocked] []))))
       = [0]
   \<and> map_option state (heap (snd (the (frame_get_data unreadable_ops 0
        (example_pool [(1, 0)] [0] [] [0 \<mapsto> example_frame 1 empty WriteLocked] [])))) 0)
       = Some empty"
proof -
  let ?e0 = "example_pool [] [] [] (\<lambda>a. None) [] :: write_log BufferManager"
  let ?e1 = "example_pool [(1, 0)] [0] [] [0 \<mapsto> example_frame 1 empty WriteLocked] []"
  let ?f = "example_frame 1 empty WriteLocked"
  have live: "heap ?e1 0 = Some ?f" by (simp add: example_pool_def)
  have fresh_state: "state ?f = empty" by (simp add: example_frame_def new_BufferFrame_def)
  have opened: "open_or_create recording_ops (to_string (unat (segment_id ?f))) READ (disk ?e1)
                  = (True, [])"
    by (simp add: open_or_create_def recording_ops_def example_pool_def)
  have opened': "open_or_create unreadable_ops (to_string (unat (segment_id ?f))) READ (disk ?e1)
                  = (True, [])"
    by (simp add: open_or_create_def unreadable_ops_def recording_ops_def example_pool_def)
  have no_read: "read_block unreadable_ops (to_string (unat (segment_id ?f)))
                   (pageOffsetInFile ?f) (page_size ?f) [] = None"
    by (simp add: unreadable_ops_def)
  have zeros: "read_block recording_ops (to_string (unat (segment_id ?f)))
                   (pageOffsetInFile ?f) (page_size ?f) [] = Some (replicate 1024 0)"
    by (simp add: recording_ops_def example_frame_def new_BufferFrame_def)
  have miss: "map_of (bufferFrameMap ?e0) 1 = None" by (simp add: example_pool_def)
  have same: "fix_page unreadable_ops 0 1 True ?e0 = fix_page recording_ops 0 1 True ?e0"
    using C6_read_failure_keeps_frame [where ops = recording_ops
            and r = "\<lambda>file_name offset size d. None", THEN conjunct1]
    by (simp add: unreadable_ops_def)
  from C6_read_failure_keeps_frame [THEN conjunct2, THEN conjunct1, rule_format,
         OF miss example_fix_1]
  have created: "map_option state (heap ?e1 0) = Some empty
                 \<and> map_option data (heap ?e1 0) = Some Nullptr"
    by simp
  from C6_read_failure_keeps_frame [THEN conjunct2, THEN conjunct2, THEN conjunct2, THEN conjunct1,
         rule_format, OF live fresh_state opened zeros]
  have materialised: "map_option fst (frame_get_data recording_ops 0 ?e1) = Some None"
    by simp
  from C6_read_failure_keeps_frame [THEN conjunct2, THEN conjunct2, THEN conjunct2, THEN conjunct2,
         THEN conjunct1, rule_format, OF live fresh_state opened' no_read]
  obtain s' where thrown: "frame_get_data unreadable_ops 0 ?e1 = Some (Some io_failure, s')"
    by blast
  from C6_read_failure_keeps_frame [THEN conjunct2, THEN conjunct2, THEN conjunct2, THEN conjunct2,
         THEN conjunct2, rule_format, OF thrown]
  have kept: "bufferFrameMap s' = bufferFrameMap ?e1 \<and> fifo s' = fifo ?e1
     \<and> (\<exists>g'. heap s' 0 = Some g' \<and> state g' = empty)"
    by blast
  then have "map_option state (heap s' 0) = Some empty" by auto
  with same created materialised thrown kept show ?thesis
    by (simp add: example_fix_1) (simp add: example_pool_def)
qed

text \<open>
  The claim as the specification states it fails: \<open>fix_page\<close> creates the frame for page 1,
  the read of its materialisation throws, and afterwards the frame is still in the frame
  table and in the FIFO queue.
\<close>

theorem C6_frame_stays_after_failed_read:
  "fix_page unreadable_ops 0 1 True (new_BufferManager 1024 1 [])
     = (Returned 0, example_pool [(1, 0)] [0] [] [0 \<mapsto> example_frame 1 empty WriteLocked] [])
   \<and> frame_get_data unreadable_ops 0
        (example_pool [(1, 0)] [0] [] [0 \<mapsto> example_frame 1 empty WriteLocked] [])
     = Some (Some io_failure,
        example_pool [(1, 0)] [0] []
          [0 \<mapsto> (example_frame 1 empty WriteLocked)\<lparr>data := Uninitialised\<rparr>] [])
   \<and> map_of (bufferFrameMap (example_pool [(1, 0)] [0] []
          [0 \<mapsto> (example_frame 1 empty WriteLocked)\<lparr>data := Uninitialised\<rparr>] [])) 1 = Some 0
   \<and> fifo (example_pool [(1, 0)] [0] []
          [0 \<mapsto> (example_frame 1 empty WriteLocked)\<lparr>data := Uninitialised\<rparr>] []) = [0]"
  by (simp add: run_defs frame_get_data_def get_data_def readPage_def)

section \<open>The fields a frame derives from its page id\<close>

lemma frame_wf_fields [simp]:
  "frame_wf psize (f\<lparr>frameLock := l\<rparr>) = frame_wf psize f"
  "frame_wf psize (f\<lparr>state := st\<rparr>) = frame_wf psize f"
  "frame_wf psize (f\<lparr>data := b\<rparr>) = frame_wf psize f"
  by (simp_all add: frame_wf_def)

lemma frame_wf_new: "frame_wf psize (new_BufferFrame pid psize (get_segment_id pid))"
  by (simp add: frame_wf_def new_BufferFrame_def get_segment_page_id_def)

lemma frames_wf_put:
  "frames_wf psize s \<Longrightarrow> frame_wf psize f \<Longrightarrow> frames_wf psize (s\<lparr>heap := (heap s)(a \<mapsto> f)\<rparr>)"
  by (simp add: frames_wf_def)

lemma frames_wf_other [simp]:
  "frames_wf psize (s\<lparr>mtx := m\<rparr>) = frames_wf psize s"
  "frames_wf psize (s\<lparr>disk := d\<rparr>) = frames_wf psize s"
  "frames_wf psize (s\<lparr>fifo := q\<rparr>) = frames_wf psize s"
  "frames_wf psize (s\<lparr>lru := q\<rparr>) = frames_wf psize s"
  "frames_wf psize (s\<lparr>bufferFrameMap := t\<rparr>) = frames_wf psize s"
  by (simp_all add: frames_wf_def)

lemma frames_wf_frame: "frames_wf psize s \<Longrightarrow> heap s a = Some f \<Longrightarrow> frame_wf psize f"
  by (simp add: frames_wf_def)

lemma flush_wf: "flush ops f d = (e, f', d') \<Longrightarrow> frame_wf psize f' = frame_wf psize f"
  by (cases e) (auto dest!: flush_ok flush_exn)

lemma readPage_wf: "readPage ops f d = (e, f', d') \<Longrightarrow> frame_wf psize f' = frame_wf psize f"
  by (auto simp: readPage_def Let_def split: prod.splits bool.splits option.splits)

lemma get_data_wf: "get_data ops f d = (e, f', d') \<Longrightarrow> frame_wf psize f' = frame_wf psize f"
  by (auto simp: get_data_def dest: readPage_wf split: if_splits)

lemma make_room_wf:
  assumes wf: "frames_wf psize s" and mr: "make_room ops s = (r, s')"
  shows "frames_wf psize s'"
proof (cases "isFrameAvailable s")
  case True
  with mr wf show ?thesis by (auto simp: make_room_def)
next
  case False
  show ?thesis
  proof (cases "find_candidate (fifo s) (heap s)")
    case (Candidate c f)
    from find_candidate_Candidate [OF this] obtain f0 where
      h: "heap s c = Some f0" and f: "f = f0\<lparr>frameLock := WriteLocked\<rparr>"
      by auto
    from frames_wf_frame [OF wf h] f have fwf: "frame_wf psize f" by simp
    from mr False Candidate have ev: "evict ops c f s = (r, s')" by (simp add: make_room_def)
    from evict_result [OF ev] show ?thesis
    proof (elim disjE exE conjE)
      fix e f1 d1
      assume "s' = s\<lparr>heap := (heap s)(c \<mapsto> f), disk := d1\<rparr>"
      with frames_wf_put [OF wf fwf, of c] show ?thesis by simp
    next
      fix f1 d1
      assume "s' = s\<lparr>bufferFrameMap := erase (page_id f) (bufferFrameMap s),
                      fifo := removeAll c (fifo s), heap := (heap s)(c := None), disk := d1\<rparr>"
      with wf show ?thesis by (auto simp: frames_wf_def)
    qed
  next
    case No_candidate
    with mr False wf show ?thesis by (auto simp: make_room_def)
  next
    case Dangling
    with mr False wf show ?thesis by (auto simp: make_room_def)
  qed
qed

lemma hit_path_wf:
  "frames_wf psize s \<Longrightarrow> frames_wf psize (snd (hit_path a exclusive s))"
  by (auto simp: hit_path_def Let_def frames_wf_def split: option.splits prod.splits)

lemma fix_page_wf:
  assumes wf: "frames_wf psize s"
  shows "frames_wf psize (snd (fix_page ops new pid exclusive s))"
proof (cases "mtx s")
  case True
  with wf show ?thesis by (simp add: fix_page_def)
next
  case False
  let ?s0 = "s\<lparr>mtx := True\<rparr>"
  have wf0: "frames_wf psize ?s0" using wf by simp
  show ?thesis
  proof (cases "map_of (bufferFrameMap s) pid")
    case (Some a)
    with hit_path_wf [OF wf0, of a exclusive] False show ?thesis
      by (simp add: fix_page_def)
  next
    case None
    obtain r s1 where mr: "make_room ops ?s0 = (r, s1)"
      by (cases "make_room ops ?s0")
    from make_room_wf [OF wf0 mr] have wf1: "frames_wf psize s1" .
    then have ps: "bm_page_size s1 = psize" by (simp add: frames_wf_def)
    show ?thesis
    proof (cases r)
      case (Some out)
      with None False mr wf1 show ?thesis by (simp add: fix_page_def)
    next
      case r: None
      have miss1: "map_of (bufferFrameMap s1) pid = None"
      proof -
        have "set (bufferFrameMap s1) \<subseteq> set (bufferFrameMap s)"
          using mr by (auto simp: make_room_def erase_set dest!: evict_result
                split: if_splits scan_result.splits)
        with None show ?thesis by (auto simp: map_of_eq_None_iff)
      qed
      from allocate_result [OF miss1, of new exclusive] obtain l where
        "snd (allocate new pid exclusive s1) =
            s1\<lparr>heap := (heap s1)(new \<mapsto>
                    (new_BufferFrame pid (bm_page_size s1) (get_segment_id pid))\<lparr>frameLock := l\<rparr>),
              bufferFrameMap := bufferFrameMap s1 @ [(pid, new)],
              fifo := fifo s1 @ [new], mtx := False\<rparr>"
        by auto
      moreover have "frames_wf psize (s1\<lparr>heap := (heap s1)(new \<mapsto>
                    (new_BufferFrame pid (bm_page_size s1) (get_segment_id pid))\<lparr>frameLock := l\<rparr>)\<rparr>)"
        by (rule frames_wf_put [OF wf1]) (simp add: ps frame_wf_new)
      ultimately show ?thesis
        using None False mr r by (simp add: fix_page_def)
    qed
  qed
qed

lemma reachable_wf: "reachable ops psize pcount d0 s \<Longrightarrow> frames_wf psize s"
proof (induction rule: reachable.induct)
  case constructed
  show ?case by (simp add: frames_wf_def new_BufferManager_def)
next
  case (fixed s new pid exclusive)
  then show ?case by (simp add: fix_page_wf)
next
  case (resumed s a exclusive s')
  then show ?case
    by (auto simp: resume_fix_page_def split: option.splits prod.splits
          intro!: frames_wf_put dest: frames_wf_frame)
next
  case (unfixed s a is_dirty s')
  then show ?case
    by (auto simp: unfix_page_def setDirty_def Let_def split: option.splits if_splits
          intro!: frames_wf_put dest: frames_wf_frame)
next
  case (read s a e s')
  then show ?case
    by (auto simp: frame_get_data_def split: option.splits prod.splits
          intro!: frames_wf_put dest: frames_wf_frame get_data_wf)
next
  case (written s a bytes s')
  then show ?case
    by (auto simp: caller_write_def split: option.splits buffer.splits
          intro!: frames_wf_put dest: frames_wf_frame)
qed

lemma readPage_at:
  assumes "frame_wf psize f"
    and "open_or_create ops (to_string (unat (get_segment_id (page_id f)))) READ d = (True, d1)"
  shows "readPage ops f d =
     (case read_block ops (to_string (unat (get_segment_id (page_id f))))
             (get_segment_page_id (page_id f) * psize) psize d1 of
        None \<Rightarrow> (Some io_failure, f\<lparr>data := Uninitialised\<rparr>, d1)
      | Some bytes \<Rightarrow> (None, f\<lparr>data := Contents bytes, state := clean\<rparr>, d1))"
  using assms by (simp add: readPage_def frame_wf_def Let_def split: option.splits)

lemma writePage_at:
  assumes "frame_wf psize f"
    and "open_or_create ops (to_string (unat (get_segment_id (page_id f)))) WRITE d = (True, d1)"
  shows "writePage ops f d =
     (case write_block ops (to_string (unat (get_segment_id (page_id f)))) (data f)
             (get_segment_page_id (page_id f) * psize) psize d1 of
        None \<Rightarrow> (Some io_failure, f, d1)
      | Some d2 \<Rightarrow> (None, f\<lparr>state := clean\<rparr>, d2))"
  using assms by (simp add: writePage_def frame_wf_def Let_def split: option.splits)

text \<open>
  C9. For every 64-bit page id, \<open>get_segment_id\<close> is the id shifted right by 48 (its high
  16 bits), \<open>get_segment_page_id\<close> is the id masked with \<open>(1 << 48) - 1\<close> (its low 48
  bits), and the offset the constructor stores is \<open>get_segment_page_id(pid) * page_size\<close>,
  a product in \<open>size_t\<close>, that is modulo \<open>2^64\<close>. Every frame of a pool keeps that
  offset, and it is the offset of its disk accesses: once the segment file is open,
  \<open>readPage\<close> (and so \<open>get_data\<close> on an empty frame) is one \<open>read_block\<close> of
  \<open>page_size\<close> bytes at that offset of the file named after the segment, and \<open>writePage\<close>
  (and so \<open>flush\<close> on a dirty frame) is one \<open>write_block\<close> of the frame's data there,
  whatever the file operations are.
\<close>

theorem C9_page_id_split:
  "ucast (get_segment_id pid) = drop_bit 48 pid
   \<and> unat (get_segment_id pid) = unat pid div 2 ^ 48
   \<and> get_segment_page_id pid = pid AND (push_bit 48 1 - 1)
   \<and> unat (get_segment_page_id pid) = unat pid mod 2 ^ 48
   \<and> pageOffsetInFile (new_BufferFrame pid psize (get_segment_id pid))
       = get_segment_page_id pid * psize
   \<and> unat (pageOffsetInFile (new_BufferFrame pid psize (get_segment_id pid)))
       = (unat (get_segment_page_id pid) * unat psize) mod 2 ^ 64
   \<and> (reachable ops psize pcount d0 s \<longrightarrow> heap s a = Some f \<longrightarrow>
         pageOffsetInFile f = get_segment_page_id (page_id f) * psize
       \<and> unat (pageOffsetInFile f)
           = (unat (get_segment_page_id (page_id f)) * unat psize) mod 2 ^ 64
       \<and> (open_or_create ops' (to_string (unat (get_segment_id (page_id f)))) READ d = (True, dr) \<longrightarrow>
             readPage ops' f d =
               (case read_block ops' (to_string (unat (get_segment_id (page_id f))))
                       (get_segment_page_id (page_id f) * psize) psize dr of
                  None \<Rightarrow> (Some io_failure, f\<lparr>data := Uninitialised\<rparr>, dr)
                | Some bytes \<Rightarrow> (None, f\<lparr>data := Contents bytes, state := clean\<rparr>, dr))
           \<and> (state f = empty \<longrightarrow> get_data ops' f d = readPage ops' f d))
       \<and> (open_or_create ops' (to_string (unat (get_segment_id (page_id f)))) WRITE d = (True, dw) \<longrightarrow>
             writePage ops' f d =
               (case write_block ops' (to_string (unat (get_segment_id (page_id f)))) (data f)
                       (get_segment_page_id (page_id f) * psize) psize dw of
                  None \<Rightarrow> (Some io_failure, f, dw)
                | Some d2 \<Rightarrow> (None, f\<lparr>state := clean\<rparr>, d2))
           \<and> (state f = dirty \<longrightarrow> flush ops' f d = writePage ops' f d)))"
proof -
  have off: "pageOffsetInFile (new_BufferFrame pid psize (get_segment_id pid))
       = get_segment_page_id pid * psize"
    by (simp add: new_BufferFrame_def get_segment_page_id_def)
  have wrap: "unat (get_segment_page_id p * psize)
       = (unat (get_segment_page_id p) * unat psize) mod 2 ^ 64" for p
    by (simp add: unat_word_ariths)
  have split: "ucast (get_segment_id pid) = drop_bit 48 pid
   \<and> unat (get_segment_id pid) = unat pid div 2 ^ 48
   \<and> get_segment_page_id pid = pid AND (push_bit 48 1 - 1)
   \<and> unat (get_segment_page_id pid) = unat pid mod 2 ^ 48
   \<and> pageOffsetInFile (new_BufferFrame pid psize (get_segment_id pid))
       = get_segment_page_id pid * psize
   \<and> unat (pageOffsetInFile (new_BufferFrame pid psize (get_segment_id pid)))
       = (unat (get_segment_page_id pid) * unat psize) mod 2 ^ 64"
    using off wrap [of pid]
    by (simp only: get_segment_id_ucast get_segment_id_unat get_segment_page_id_unat simp_thms)
       (simp add: get_segment_page_id_def)
  have frames: "pageOffsetInFile f = get_segment_page_id (page_id f) * psize
       \<and> unat (pageOffsetInFile f)
           = (unat (get_segment_page_id (page_id f)) * unat psize) mod 2 ^ 64
       \<and> (open_or_create ops' (to_string (unat (get_segment_id (page_id f)))) READ d = (True, dr) \<longrightarrow>
             readPage ops' f d =
               (case read_block ops' (to_string (unat (get_segment_id (page_id f))))
                       (get_segment_page_id (page_id f) * psize) psize dr of
                  None \<Rightarrow> (Some io_failure, f\<lparr>data := Uninitialised\<rparr>, dr)
                | Some bytes \<Rightarrow> (None, f\<lparr>data := Contents bytes, state := clean\<rparr>, dr))
           \<and> (state f = empty \<longrightarrow> get_data ops' f d = readPage ops' f d))
       \<and> (open_or_create ops' (to_string (unat (get_segment_id (page_id f)))) WRITE d = (True, dw) \<longrightarrow>
             writePage ops' f d =
               (case write_block ops' (to_string (unat (get_segment_id (page_id f)))) (data f)
                       (get_segment_page_id (page_id f) * psize) psize dw of
                  None \<Rightarrow> (Some io_failure, f, dw)
                | Some d2 \<Rightarrow> (None, f\<lparr>state := clean\<rparr>, d2))
           \<and> (state f = dirty \<longrightarrow> flush ops' f d = writePage ops' f d))"
    if r: "reachable ops psize pcount d0 s" and h: "heap s a = Some f"
  proof -
    from frames_wf_frame [OF reachable_wf [OF r] h] have wf: "frame_wf psize f" .
    then have o: "pageOffsetInFile f = get_segment_page_id (page_id f) * psize"
      by (simp add: frame_wf_def)
    show ?thesis
      using o wrap [of "page_id f"] readPage_at [OF wf, of ops' d dr]
        writePage_at [OF wf, of ops' d dw]
      by (simp add: get_data_def flush_def)
  qed
  from split frames show ?thesis by blast
qed

theorem C9_page_id_split_witness:
  "pageOffsetInFile (example_frame 1 dirty Unlocked) = 1024
   \<and> readPage unreadable_ops (example_frame 1 dirty Unlocked) []
       = (Some io_failure, (example_frame 1 dirty Unlocked)\<lparr>data := Uninitialised\<rparr>, [])
   \<and> writePage unreadable_ops (example_frame 1 dirty Unlocked) []
       = (None, example_frame 1 clean Unlocked, [(''0'', 1024, Nullptr)])
   \<and> flush unreadable_ops (example_frame 1 dirty Unlocked) []
       = (None, example_frame 1 clean Unlocked, [(''0'', 1024, Nullptr)])"
proof -
  have live: "heap (example_pool [(1, 0)] [0] [] [0 \<mapsto> example_frame 1 dirty Unlocked] []) 0
                = Some (example_frame 1 dirty Unlocked)"
    by (simp add: example_pool_def)
  have opened: "open_or_create unreadable_ops
                  (to_string (unat (get_segment_id (page_id (example_frame 1 dirty Unlocked)))))
                  mode [] = (True, [])" for mode
    by (simp add: open_or_create_def unreadable_ops_def recording_ops_def)
  have name: "to_string (unat (get_segment_id (page_id (example_frame 1 dirty Unlocked)))) = ''0''"
    by (simp add: example_frame_def new_BufferFrame_def to_string.simps digit_char_def)
  have index: "get_segment_page_id (page_id (example_frame 1 dirty Unlocked)) * 1024 = 1024"
    by (simp add: example_frame_def new_BufferFrame_def get_segment_page_id_def)
  from C9_page_id_split [where ops = recording_ops and psize = 1024 and pcount = 1
          and ?d0.0 = "[]" and a = 0 and f = "example_frame 1 dirty Unlocked"
          and s = "example_pool [(1, 0)] [0] [] [0 \<mapsto> example_frame 1 dirty Unlocked] []"
          and ops' = unreadable_ops and d = "[]" and dr = "[]" and dw = "[]"]
       example_reachable_2 live opened
  show ?thesis
    by (simp add: name index)
       (simp add: unreadable_ops_def recording_ops_def example_frame_def new_BufferFrame_def
          open_or_create_def)
qed

end
